theory Spec2Isabelle
  imports Complex_Main
begin

section \<open>Data model: a pandas data frame as read by \<open>read_csv\<close>\<close>

text \<open>
  \<open>clean_data.py\<close> works on a pandas \<open>DataFrame\<close>. A frame is an ordered list of
  named columns; a column (\<open>Series\<close>) has a dtype and one cell per row. A cell is
  missing (\<open>NaN\<close>), a number or a text. Finite float64 values are rationals; the
  float operations whose rounding the library decides (division, \<open>round(2)\<close>, the mean
  of the two middle values of a median) are parameters of the model, so every theorem
  below holds for whatever these operations compute. Text is a list of one-byte
  characters (ASCII). Infinities and boolean columns are outside the model.
\<close>

datatype dtype = Float64 | Object

datatype cell = NaN | Num rat | Str string

datatype series = Series (dtype: dtype) (cells: "cell list")

type_synonym dataframe = "(string \<times> series) list"

datatype exn = FileNotFoundError | OSError | KeyError "string list" | TypeError | AttributeError

record float_ops =
  truediv :: "rat \<Rightarrow> rat \<Rightarrow> rat"
  round2 :: "rat \<Rightarrow> rat"
  mean2 :: "rat \<Rightarrow> rat \<Rightarrow> rat"

definition columns :: "dataframe \<Rightarrow> string list" where
  "columns df = map fst df"

definition nrows :: "dataframe \<Rightarrow> nat" where
  "nrows df = (case df of [] \<Rightarrow> 0 | (k, s) # rest \<Rightarrow> length (cells s))"

text \<open>\<open>df[k]\<close>: the column, or \<open>KeyError\<close>.\<close>

definition getitem :: "dataframe \<Rightarrow> string \<Rightarrow> exn + series" where
  "getitem df k = (case map_of df k of None \<Rightarrow> Inl (KeyError [k]) | Some s \<Rightarrow> Inr s)"

definition col_cells :: "dataframe \<Rightarrow> string \<Rightarrow> cell list" where
  "col_cells df k = (case map_of df k of None \<Rightarrow> [] | Some s \<Rightarrow> cells s)"

text \<open>\<open>df[k] = s\<close>: an existing column is replaced where it stands, a new one is appended.\<close>

fun setitem :: "string \<Rightarrow> series \<Rightarrow> dataframe \<Rightarrow> dataframe" where
  "setitem k s [] = [(k, s)]"
| "setitem k s ((k', s') # df) = (if k' = k then (k, s) # df else (k', s') # setitem k s df)"

fun notna :: "cell \<Rightarrow> bool" where
  "notna NaN = False"
| "notna (Num x) = True"
| "notna (Str s) = True"

fun is_Str :: "cell \<Rightarrow> bool" where
  "is_Str (Str s) = True"
| "is_Str NaN = False"
| "is_Str (Num x) = False"

fun is_Num :: "cell \<Rightarrow> bool" where
  "is_Num (Num x) = True"
| "is_Num NaN = False"
| "is_Num (Str s) = False"

text \<open>Boolean row selection \<open>df[keep]\<close>: the rows whose entry in \<open>keep\<close> is true, in order.\<close>

definition select :: "bool list \<Rightarrow> 'a list \<Rightarrow> 'a list" where
  "select keep xs = map snd (filter fst (zip keep xs))"

definition take_rows :: "bool list \<Rightarrow> dataframe \<Rightarrow> dataframe" where
  "take_rows keep df = map (\<lambda>(k, s). (k, Series (dtype s) (select keep (cells s)))) df"

fun traverse :: "('a \<Rightarrow> exn + 'b) \<Rightarrow> 'a list \<Rightarrow> exn + 'b list" where
  "traverse f [] = Inr []"
| "traverse f (x # xs) =
     (case f x of Inl e \<Rightarrow> Inl e
      | Inr y \<Rightarrow> (case traverse f xs of Inl e \<Rightarrow> Inl e | Inr ys \<Rightarrow> Inr (y # ys)))"

fun for_each :: "('a \<Rightarrow> 's \<Rightarrow> exn + 's) \<Rightarrow> 'a list \<Rightarrow> 's \<Rightarrow> exn + 's" where
  "for_each f [] s = Inr s"
| "for_each f (x # xs) s = (case f x s of Inl e \<Rightarrow> Inl e | Inr s' \<Rightarrow> for_each f xs s')"

section \<open>Step 0: drop rows without Price or Area (lines 19-23)\<close>

text \<open>
  \<open>df.dropna(subset=..., inplace=True)\<close> raises \<open>KeyError\<close> with the absent names of
  the subset; otherwise it keeps the rows in which every column of the subset is present.
\<close>

definition notna_mask :: "string list \<Rightarrow> dataframe \<Rightarrow> bool list" where
  "notna_mask names df =
     foldr (\<lambda>k acc. map2 (\<and>) (map notna (col_cells df k)) acc) names (replicate (nrows df) True)"

definition dropna :: "string list \<Rightarrow> dataframe \<Rightarrow> exn + dataframe" where
  "dropna names df =
     (let absent = filter (\<lambda>k. k \<notin> set (columns df)) names
      in if absent \<noteq> [] then Inl (KeyError absent)
         else Inr (take_rows (notna_mask names df) df))"

text \<open>\<open>df['Area_sqft'] > 0\<close>, cell by cell: comparing a text with \<open>0\<close> raises \<open>TypeError\<close>.\<close>

fun gt_zero :: "cell \<Rightarrow> exn + bool" where
  "gt_zero NaN = Inr False"
| "gt_zero (Num x) = Inr (0 < x)"
| "gt_zero (Str s) = Inl TypeError"

definition drop_rows :: "dataframe \<Rightarrow> exn + dataframe" where
  "drop_rows df =
     (case dropna [''Price'', ''Area_sqft''] df of Inl e \<Rightarrow> Inl e
      | Inr df1 \<Rightarrow>
          (case getitem df1 ''Area_sqft'' of Inl e \<Rightarrow> Inl e
           | Inr a \<Rightarrow>
               (case traverse gt_zero (cells a) of Inl e \<Rightarrow> Inl e
                | Inr keep \<Rightarrow> Inr (take_rows keep df1))))"

section \<open>Step 1: imputation (lines 29-45)\<close>

definition numerical_cols :: "string list" where
  "numerical_cols =
     [''Washrooms'', ''Floor_Number'', ''Total_Floors'', ''Open_Sides'',
      ''Plot_Length'', ''Plot_Breadth'', ''Entrance_Width_ft'', ''Road_Width_m'']"

definition categorical_cols :: "string list" where
  "categorical_cols =
     [''Property_Age'', ''Zoning'', ''Facing'', ''Overlooking'',
      ''Pantry'', ''Furnishing_Status'', ''Possession_Date'']"

definition nums :: "cell list \<Rightarrow> rat list" where
  "nums cs = concat (map (\<lambda>c. case c of Num x \<Rightarrow> [x] | NaN \<Rightarrow> [] | Str s \<Rightarrow> []) cs)"

text \<open>
  \<open>Series.median()\<close> skips missing cells and takes the middle of the sorted numbers,
  or the mean of the two middle ones. A column holding text raises \<open>TypeError\<close>; a
  column with no number has the median \<open>NaN\<close>.
\<close>

definition middle :: "float_ops \<Rightarrow> rat list \<Rightarrow> rat" where
  "middle ops xs =
     (let n = length xs
      in if odd n then xs ! (n div 2) else mean2 ops (xs ! (n div 2 - 1)) (xs ! (n div 2)))"

definition median :: "float_ops \<Rightarrow> cell list \<Rightarrow> exn + cell" where
  "median ops cs =
     (if list_ex is_Str cs then Inl TypeError
      else let xs = sort (nums cs)
           in if xs = [] then Inr NaN else Inr (Num (middle ops xs)))"

text \<open>
  \<open>fillna(v)\<close>: every missing cell becomes \<open>v\<close>. Filling a float column that has a
  missing cell with a text makes it an object column. The source calls it as
  \<open>df[col].fillna(v, inplace=True)\<close>; the model follows pandas before copy-on-write
  (versions below 3.0), where the in-place method on the selected column writes through
  to the frame.
\<close>

definition fillna :: "cell \<Rightarrow> series \<Rightarrow> series" where
  "fillna v s =
     Series (if is_Str v \<and> list_ex (\<lambda>c. c = NaN) (cells s) then Object else dtype s)
            (map (\<lambda>c. if c = NaN then v else c) (cells s))"

definition impute_numeric :: "float_ops \<Rightarrow> string \<Rightarrow> dataframe \<Rightarrow> exn + dataframe" where
  "impute_numeric ops col df =
     (case map_of df col of None \<Rightarrow> Inr df
      | Some s \<Rightarrow>
          (case median ops (cells s) of Inl e \<Rightarrow> Inl e
           | Inr median_val \<Rightarrow> Inr (setitem col (fillna median_val s) df)))"

definition impute_categorical :: "string \<Rightarrow> dataframe \<Rightarrow> exn + dataframe" where
  "impute_categorical col df =
     (case map_of df col of None \<Rightarrow> Inr df
      | Some s \<Rightarrow> Inr (setitem col (fillna (Str ''Not Specified'') s) df))"

section \<open>Step 2: Property_Age to Age_in_Years (lines 49-58)\<close>

definition age_map :: "(string \<times> rat) list" where
  "age_map =
     [(''New Construction'', 0),
      (''Less than 5 years old'', 2.5),
      (''5 to 10 years old'', 7.5),
      (''10 to 15 years old'', 12.5),
      (''15 to 20 years old'', 17.5),
      (''Above 20 years old'', 25),
      (''Not Specified'', -1)]"

text \<open>\<open>Series.map(dict)\<close>: a cell that is no key of the dictionary becomes missing.\<close>

fun map_dict :: "(string \<times> rat) list \<Rightarrow> cell \<Rightarrow> cell" where
  "map_dict d (Str s) = (case map_of d s of None \<Rightarrow> NaN | Some x \<Rightarrow> Num x)"
| "map_dict d NaN = NaN"
| "map_dict d (Num x) = NaN"

definition add_age :: "dataframe \<Rightarrow> exn + dataframe" where
  "add_age df =
     (case getitem df ''Property_Age'' of Inl e \<Rightarrow> Inl e
      | Inr s \<Rightarrow>
          Inr (setitem ''Age_in_Years''
                 (fillna (Num (-1)) (Series Float64 (map (map_dict age_map) (cells s)))) df))"

section \<open>Step 3: Water Availability (lines 62-63)\<close>

definition is_digit :: "char \<Rightarrow> bool" where
  "is_digit c = (c \<in> set ''0123456789'')"

text \<open>The characters that \<open>\s\<close> matches and \<open>strip()\<close> removes: 9-13, 28-31 and the space.\<close>

definition is_space :: "char \<Rightarrow> bool" where
  "is_space c =
     (c \<in> set [CHR 0x09, CHR 0x0A, CHR 0x0B, CHR 0x0C, CHR 0x0D,
               CHR 0x1C, CHR 0x1D, CHR 0x1E, CHR 0x1F, CHR 0x20])"

text \<open>
  The pattern \<open>\d+\s*Hours?\<close> at the start of a text: the whole run of digits, the
  whole run of whitespace, \<open>Hour\<close>, and an \<open>s\<close> if one follows.
\<close>

definition match_here :: "string \<Rightarrow> string option" where
  "match_here s =
     (let ds = takeWhile is_digit s; r1 = dropWhile is_digit s;
          ws = takeWhile is_space r1; r2 = dropWhile is_space r1
      in if ds \<noteq> [] \<and> take 4 r2 = ''Hour''
         then Some (ds @ ws @ ''Hour'' @ (if take 1 (drop 4 r2) = ''s'' then ''s'' else []))
         else None)"

text \<open>\<open>re.search\<close>: the match at the leftmost position that has one.\<close>

fun re_search :: "string \<Rightarrow> string option" where
  "re_search [] = None"
| "re_search (c # cs) =
     (case match_here (c # cs) of Some m \<Rightarrow> Some m | None \<Rightarrow> re_search cs)"

fun str_extract :: "cell \<Rightarrow> cell" where
  "str_extract (Str s) = (case re_search s of None \<Rightarrow> NaN | Some m \<Rightarrow> Str m)"
| "str_extract NaN = NaN"
| "str_extract (Num x) = NaN"

text \<open>A string method applied through \<open>.str\<close> leaves a cell that is no text missing.\<close>

fun str_method :: "(string \<Rightarrow> string) \<Rightarrow> cell \<Rightarrow> cell" where
  "str_method f (Str s) = Str (f s)"
| "str_method f NaN = NaN"
| "str_method f (Num x) = NaN"

definition replace_space :: "string \<Rightarrow> string" where
  "replace_space s = filter (\<lambda>c. c \<noteq> CHR '' '') s"

definition strip :: "string \<Rightarrow> string" where
  "strip s = rev (dropWhile is_space (rev (dropWhile is_space s)))"

text \<open>
  The \<open>.str\<close> accessor raises \<open>AttributeError\<close> on a column that is not an object
  column, and on an object column whose present cells are all numbers.
\<close>

definition str_accessor :: "series \<Rightarrow> exn + cell list" where
  "str_accessor s =
     (if dtype s = Object \<and> (list_ex is_Str (cells s) \<or> \<not> list_ex is_Num (cells s))
      then Inr (cells s) else Inl AttributeError)"

definition add_water_status :: "dataframe \<Rightarrow> exn + dataframe" where
  "add_water_status df =
     (case getitem df ''Water Availability'' of Inl e \<Rightarrow> Inl e
      | Inr w \<Rightarrow>
          (case str_accessor w of Inl e \<Rightarrow> Inl e
           | Inr cs \<Rightarrow>
               (let df1 = setitem ''Water_Availability_Status''
                            (fillna (Str ''Not Specified'') (Series Object (map str_extract cs))) df
                in case getitem df1 ''Water_Availability_Status'' of Inl e \<Rightarrow> Inl e
                   | Inr st \<Rightarrow>
                       (case str_accessor st of Inl e \<Rightarrow> Inl e
                        | Inr cs1 \<Rightarrow>
                            Inr (setitem ''Water_Availability_Status''
                                   (Series Object
                                      (map (str_method strip) (map (str_method replace_space) cs1)))
                                   df1)))))"

section \<open>Step 4: Price_per_sqft (line 67)\<close>

text \<open>
  Division cell by cell: a missing operand gives a missing result, a text operand raises
  \<open>TypeError\<close>.
\<close>

fun div_cell :: "float_ops \<Rightarrow> cell \<times> cell \<Rightarrow> exn + cell" where
  "div_cell ops (Num a, Num b) = Inr (Num (truediv ops a b))"
| "div_cell ops (NaN, c) = Inr NaN"
| "div_cell ops (Num a, NaN) = Inr NaN"
| "div_cell ops (Str s, NaN) = Inr NaN"
| "div_cell ops (Str s, Num b) = Inl TypeError"
| "div_cell ops (Str s, Str t) = Inl TypeError"
| "div_cell ops (Num a, Str t) = Inl TypeError"

fun round_cell :: "float_ops \<Rightarrow> cell \<Rightarrow> cell" where
  "round_cell ops (Num x) = Num (round2 ops x)"
| "round_cell ops NaN = NaN"
| "round_cell ops (Str s) = Str s"

definition add_price_per_sqft :: "float_ops \<Rightarrow> dataframe \<Rightarrow> exn + dataframe" where
  "add_price_per_sqft ops df =
     (case getitem df ''Price'' of Inl e \<Rightarrow> Inl e
      | Inr p \<Rightarrow>
          (case getitem df ''Area_sqft'' of Inl e \<Rightarrow> Inl e
           | Inr a \<Rightarrow>
               (case traverse (div_cell ops) (zip (cells p) (cells a)) of Inl e \<Rightarrow> Inl e
                | Inr q \<Rightarrow>
                    Inr (setitem ''Price_per_sqft'' (Series Float64 (map (round_cell ops) q)) df))))"

section \<open>Step 5: drop and reorder the columns (lines 71-83)\<close>

definition drop_columns :: "string list \<Rightarrow> dataframe \<Rightarrow> dataframe" where
  "drop_columns ks df = filter (\<lambda>(k, s). k \<notin> set ks) df"

definition final_cols_order :: "string list" where
  "final_cols_order =
     [''Property_Type'', ''Transaction_Type'', ''Location'', ''latitude'', ''longitude'', ''Price'',
      ''Area_sqft'', ''Price_per_sqft'', ''area_type'', ''Construction_Status'',
      ''Age_in_Years'', ''Possession_Date'', ''Furnishing_Status'', ''Zoning'', ''Facing'',
      ''Overlooking'', ''Pantry'', ''Water_Availability_Status'', ''Washrooms'', ''Floor_Number'',
      ''Total_Floors'', ''Covered_Parking'', ''Open_Parking'', ''Open_Sides'', ''Plot_Length'',
      ''Plot_Breadth'', ''Entrance_Width_ft'', ''Road_Width_m'']"

text \<open>\<open>df[names]\<close>: the named columns in the order of the names, or \<open>KeyError\<close>.\<close>

definition getitem_list :: "dataframe \<Rightarrow> string list \<Rightarrow> exn + dataframe" where
  "getitem_list df ks =
     traverse (\<lambda>k. case getitem df k of Inl e \<Rightarrow> Inl e | Inr s \<Rightarrow> Inr (k, s)) ks"

definition select_final :: "dataframe \<Rightarrow> exn + dataframe" where
  "select_final df =
     (let df1 = drop_columns [''Property_Age'', ''Water Availability''] df;
          existing_final_cols = filter (\<lambda>col. col \<in> set (columns df1)) final_cols_order
      in getitem_list df1 existing_final_cols)"

section \<open>The whole transformation (lines 19-83)\<close>

definition impute_missing :: "float_ops \<Rightarrow> dataframe \<Rightarrow> exn + dataframe" where
  "impute_missing ops df =
     (case drop_rows df of Inl e \<Rightarrow> Inl e
      | Inr df0 \<Rightarrow>
     (case for_each (impute_numeric ops) numerical_cols df0 of Inl e \<Rightarrow> Inl e
      | Inr df1 \<Rightarrow> for_each impute_categorical categorical_cols df1))"

definition transform :: "float_ops \<Rightarrow> dataframe \<Rightarrow> exn + dataframe" where
  "transform ops df =
     (case impute_missing ops df of Inl e \<Rightarrow> Inl e
      | Inr df2 \<Rightarrow>
     (case add_age df2 of Inl e \<Rightarrow> Inl e
      | Inr df3 \<Rightarrow>
     (case add_water_status df3 of Inl e \<Rightarrow> Inl e
      | Inr df4 \<Rightarrow>
     (case add_price_per_sqft ops df4 of Inl e \<Rightarrow> Inl e
      | Inr df5 \<Rightarrow> select_final df5))))"

section \<open>Files and the entry points (lines 10-15, 87, 97-107)\<close>

text \<open>
  A path holds no file, a file that cannot be read as a table (with the exception that
  \<open>read_csv\<close> raises on it), or a table. The console records the error reports; the
  progress messages are not modelled.
\<close>

datatype path_state = Missing | Unreadable exn | Csv dataframe

datatype outcome = Returned | Raised exn

record world =
  files :: "string \<Rightarrow> path_state"
  writable :: "string \<Rightarrow> bool"
  console :: "string list"

definition read_csv :: "world \<Rightarrow> string \<Rightarrow> exn + dataframe" where
  "read_csv w path =
     (case files w path of Missing \<Rightarrow> Inl FileNotFoundError
      | Unreadable e \<Rightarrow> Inl e
      | Csv df \<Rightarrow> Inr df)"

definition to_csv :: "dataframe \<Rightarrow> string \<Rightarrow> world \<Rightarrow> outcome \<times> world" where
  "to_csv df path w =
     (if writable w path then (Returned, w\<lparr>files := (files w)(path := Csv df)\<rparr>)
      else (Raised OSError, w))"

definition print :: "string \<Rightarrow> world \<Rightarrow> world" where
  "print line w = w\<lparr>console := console w @ [line]\<rparr>"

definition quoted :: "string \<Rightarrow> string" where
  "quoted s = [CHR 0x27] @ s @ [CHR 0x27]"

definition finalize_property_data :: "float_ops \<Rightarrow> string \<Rightarrow> string \<Rightarrow> world \<Rightarrow> outcome \<times> world" where
  "finalize_property_data ops input_csv_path output_csv_path w =
     (case read_csv w input_csv_path of
        Inl e \<Rightarrow>
          (if e = FileNotFoundError
           then (Returned,
                 print (''Error: The file '' @ quoted input_csv_path
                        @ '' was not found. Please check the path.'') w)
           else (Raised e, w))
      | Inr df \<Rightarrow>
          (case transform ops df of Inl e \<Rightarrow> (Raised e, w)
           | Inr df_final \<Rightarrow> to_csv df_final output_csv_path w))"

definition base_dir :: string where
  "base_dir = ''C:'' @ [CHR 0x5C] @ ''Users'' @ [CHR 0x5C] @ ''Asus'' @ [CHR 0x5C] @ ''OneDrive''
     @ [CHR 0x5C] @ ''Desktop'' @ [CHR 0x5C] @ ''100 GAJ ASSIGNMENTS'' @ [CHR 0x5C] @ ''Task-5''
     @ [CHR 0x5C] @ ''Property-Prices''"

definition INPUT_FILE :: string where
  "INPUT_FILE = base_dir @ [CHR 0x5C] @ ''fully_cleaned_property_data.csv''"

definition OUTPUT_FILE :: string where
  "OUTPUT_FILE = base_dir @ [CHR 0x5C] @ ''final_analysis_ready_data.csv''"

definition path_exists :: "world \<Rightarrow> string \<Rightarrow> bool" where
  "path_exists w path = (files w path \<noteq> Missing)"

definition main :: "float_ops \<Rightarrow> world \<Rightarrow> outcome \<times> world" where
  "main ops w =
     (if path_exists w INPUT_FILE then finalize_property_data ops INPUT_FILE OUTPUT_FILE w
      else (Returned,
            print ''Please make sure the file from the first script exists and the path is correct.''
              (print (''ERROR: The input file was not found at the path: '' @ INPUT_FILE) w)))"

section \<open>The properties, in the words of the specification\<close>

text \<open>
  A frame is well formed when all its columns have the same number of cells, as every
  frame that \<open>read_csv\<close> returns is.
\<close>

definition wf_df :: "dataframe \<Rightarrow> bool" where
  "wf_df df = list_all (\<lambda>(k, s). length (cells s) = nrows df) df"

text \<open>
  The row filter as the specification words it: a row survives when its Price and its
  Area_sqft are present and its Area_sqft is a number above zero.
\<close>

fun positive :: "cell \<Rightarrow> bool" where
  "positive (Num x) = (0 < x)"
| "positive NaN = False"
| "positive (Str s) = False"

definition row_ok :: "cell \<times> cell \<Rightarrow> bool" where
  "row_ok pa = (notna (fst pa) \<and> notna (snd pa) \<and> positive (snd pa))"

definition survivors :: "dataframe \<Rightarrow> bool list" where
  "survivors df = map row_ok (zip (col_cells df ''Price'') (col_cells df ''Area_sqft''))"

text \<open>The cells of column \<open>k\<close> in the surviving rows: the column over the post-filter table.\<close>

definition post_filter :: "dataframe \<Rightarrow> string \<Rightarrow> cell list" where
  "post_filter df k = select (survivors df) (col_cells df k)"




section \<open>Exact float operations and an example table\<close>

text \<open>
  The exact counterparts of the float operations: the quotient, rounding to two decimals
  with ties to even, and the mean of two numbers. The concrete runs below use them.
\<close>

definition rint :: "rat \<Rightarrow> int" where
  "rint x = (let f = \<lfloor>x\<rfloor>; d = x - of_int f
             in if d < 1/2 then f else if 1/2 < d then f + 1 else if even f then f else f + 1)"

definition exact_ops :: float_ops where
  "exact_ops = \<lparr>truediv = (\<lambda>a b. a / b), round2 = (\<lambda>x. of_int (rint (x * 100)) / 100),
                 mean2 = (\<lambda>a b. (a + b) / 2)\<rparr>"

definition df_example :: dataframe where
  "df_example =
     [(''Price'', Series Float64 [Num 1000000, NaN, Num 500000, Num 750000, Num 200000]),
      (''Area_sqft'', Series Float64 [Num 500, Num 300, Num 0, Num 250, Num 100]),
      (''Property_Age'',
         Series Object [Str ''5 to 10 years old'', Str ''New Construction'', NaN, NaN, Str ''Old'']),
      (''Water Availability'',
         Series Object [Str ''Available 12 Hours a day'', NaN, Str ''24 Hours'', NaN, Str ''6 Hour'']),
      (''Washrooms'', Series Float64 [Num 2, Num 1, Num 3, NaN, Num 4]),
      (''Zoning'', Series Object [NaN, NaN, NaN, Str ''Residential'', NaN])]"

definition out_example :: dataframe where
  "out_example =
     [(''Price'', Series Float64 [Num 1000000, Num 750000, Num 200000]),
      (''Area_sqft'', Series Float64 [Num 500, Num 250, Num 100]),
      (''Price_per_sqft'', Series Float64 [Num 2000, Num 3000, Num 2000]),
      (''Age_in_Years'', Series Float64 [Num 7.5, Num (- 1), Num (- 1)]),
      (''Zoning'', Series Object [Str ''Not Specified'', Str ''Residential'', Str ''Not Specified'']),
      (''Water_Availability_Status'',
         Series Object [Str ''12Hours'', Str ''NotSpecified'', Str ''6Hour'']),
      (''Washrooms'', Series Float64 [Num 2, Num 3, Num 4])]"

text \<open>A table whose Washrooms column has no value at all.\<close>

definition df_all_missing :: dataframe where
  "df_all_missing =
     [(''Price'', Series Float64 [Num 100, Num 200]),
      (''Area_sqft'', Series Float64 [Num 10, Num 20]),
      (''Property_Age'', Series Object [Str ''New Construction'', NaN]),
      (''Water Availability'', Series Object [Str ''24 Hours'', NaN]),
      (''Washrooms'', Series Float64 [NaN, NaN])]"

definition out_all_missing :: dataframe where
  "out_all_missing =
     [(''Price'', Series Float64 [Num 100, Num 200]),
      (''Area_sqft'', Series Float64 [Num 10, Num 20]),
      (''Price_per_sqft'', Series Float64 [Num 10, Num 10]),
      (''Age_in_Years'', Series Float64 [Num 0, Num (- 1)]),
      (''Water_Availability_Status'', Series Object [Str ''24Hours'', Str ''NotSpecified'']),
      (''Washrooms'', Series Float64 [NaN, NaN])]"


text \<open>A table with every column that the script names, in one row.\<close>

definition df_full :: dataframe where
  "df_full =
     [(''Property_Type'', Series Object [Str ''Flat'']),
      (''Transaction_Type'', Series Object [Str ''Resale'']),
      (''Location'', Series Object [Str ''Pune'']),
      (''latitude'', Series Float64 [Num 18.5]),
      (''longitude'', Series Float64 [Num 73.8]),
      (''Price'', Series Float64 [Num 1000000]),
      (''Area_sqft'', Series Float64 [Num 500]),
      (''area_type'', Series Object [Str ''Carpet'']),
      (''Construction_Status'', Series Object [Str ''Ready'']),
      (''Property_Age'', Series Object [Str ''5 to 10 years old'']),
      (''Possession_Date'', Series Float64 [NaN]),
      (''Furnishing_Status'', Series Object [Str ''Furnished'']),
      (''Zoning'', Series Float64 [NaN]),
      (''Facing'', Series Object [Str ''East'']),
      (''Overlooking'', Series Object [Str ''Park'']),
      (''Pantry'', Series Object [Str ''Dry'']),
      (''Water Availability'', Series Object [Str ''Available 12 Hours a day'']),
      (''Washrooms'', Series Float64 [Num 2]),
      (''Floor_Number'', Series Float64 [Num 3]),
      (''Total_Floors'', Series Float64 [Num 10]),
      (''Covered_Parking'', Series Float64 [Num 1]),
      (''Open_Parking'', Series Float64 [Num 0]),
      (''Open_Sides'', Series Float64 [Num 2]),
      (''Plot_Length'', Series Float64 [Num 20]),
      (''Plot_Breadth'', Series Float64 [Num 25]),
      (''Entrance_Width_ft'', Series Float64 [Num 4]),
      (''Road_Width_m'', Series Float64 [Num 9])]"

definition out_full :: dataframe where
  "out_full =
     [(''Property_Type'', Series Object [Str ''Flat'']),
      (''Transaction_Type'', Series Object [Str ''Resale'']),
      (''Location'', Series Object [Str ''Pune'']),
      (''latitude'', Series Float64 [Num 18.5]),
      (''longitude'', Series Float64 [Num 73.8]),
      (''Price'', Series Float64 [Num 1000000]),
      (''Area_sqft'', Series Float64 [Num 500]),
      (''Price_per_sqft'', Series Float64 [Num 2000]),
      (''area_type'', Series Object [Str ''Carpet'']),
      (''Construction_Status'', Series Object [Str ''Ready'']),
      (''Age_in_Years'', Series Float64 [Num 7.5]),
      (''Possession_Date'', Series Object [Str ''Not Specified'']),
      (''Furnishing_Status'', Series Object [Str ''Furnished'']),
      (''Zoning'', Series Object [Str ''Not Specified'']),
      (''Facing'', Series Object [Str ''East'']),
      (''Overlooking'', Series Object [Str ''Park'']),
      (''Pantry'', Series Object [Str ''Dry'']),
      (''Water_Availability_Status'', Series Object [Str ''12Hours'']),
      (''Washrooms'', Series Float64 [Num 2]),
      (''Floor_Number'', Series Float64 [Num 3]),
      (''Total_Floors'', Series Float64 [Num 10]),
      (''Covered_Parking'', Series Float64 [Num 1]),
      (''Open_Parking'', Series Float64 [Num 0]),
      (''Open_Sides'', Series Float64 [Num 2]),
      (''Plot_Length'', Series Float64 [Num 20]),
      (''Plot_Breadth'', Series Float64 [Num 25]),
      (''Entrance_Width_ft'', Series Float64 [Num 4]),
      (''Road_Width_m'', Series Float64 [Num 9])]"

text \<open>A table without the Property_Age column.\<close>

definition df_no_age :: dataframe where
  "df_no_age =
     [(''Price'', Series Float64 [Num 1000000]),
      (''Area_sqft'', Series Float64 [Num 500]),
      (''Water Availability'', Series Object [Str ''24 Hours''])]"

text \<open>A file system with no file at all, and one whose input cannot be read.\<close>

definition world_no_input :: world where
  "world_no_input = \<lparr>files = (\<lambda>path. Missing), writable = (\<lambda>path. True), console = []\<rparr>"

definition world_unreadable :: world where
  "world_unreadable =
     \<lparr>files = (\<lambda>path. if path = ''in.csv'' then Unreadable OSError else Missing),
      writable = (\<lambda>path. True), console = []\<rparr>"





section \<open>Lemmas about the steps\<close>

lemma map_of_take_rows:
  "map_of (take_rows keep df) k =
     map_option (\<lambda>s. Series (dtype s) (select keep (cells s))) (map_of df k)"
  by (induction df) (auto simp: take_rows_def)

lemma columns_take_rows: "columns (take_rows keep df) = columns df"
  by (induction df) (auto simp: take_rows_def columns_def)

lemma map_of_setitem: "map_of (setitem k s df) k' = (if k' = k then Some s else map_of df k')"
  by (induction df) auto

lemma columns_setitem:
  "columns (setitem k s df) = (if k \<in> set (columns df) then columns df else columns df @ [k])"
  by (induction k s df rule: setitem.induct) (auto simp: columns_def)

lemma set_columns_setitem: "set (columns (setitem k s df)) = insert k (set (columns df))"
  by (auto simp: columns_setitem)

lemma traverse_gt_zero: "traverse gt_zero cs = Inr keep \<Longrightarrow> keep = map positive cs"
proof (induction cs arbitrary: keep)
  case Nil then show ?case by simp
next
  case (Cons c cs)
  then show ?case by (cases c) (auto split: sum.splits)
qed

lemma select_map_map: "select (map g zs) (map f zs) = map f (filter g zs)"
  by (induction zs) (auto simp: select_def)

lemma select_map_zip:
  "length rs = length xs \<Longrightarrow> select (map g rs) xs = map snd (filter (\<lambda>z. g (fst z)) (zip rs xs))"
  by (induction rs xs rule: list_induct2) (auto simp: select_def)

lemma select_map_zip_f:
  "length rs = length xs \<Longrightarrow>
   select (map g rs) (map f (zip rs xs)) = map f (filter (\<lambda>z. g (fst z)) (zip rs xs))"
  by (induction rs xs rule: list_induct2) (auto simp: select_def)

lemma wf_length: "wf_df df \<Longrightarrow> map_of df k = Some s \<Longrightarrow> length (cells s) = nrows df"
  by (auto simp: wf_df_def list_all_iff dest!: map_of_SomeD)

lemma map_of_columns: "(map_of df k = None) = (k \<notin> set (columns df))"
  by (simp add: columns_def map_of_eq_None_iff)


lemma notna_mask_price_area:
  assumes "wf_df df" "map_of df ''Price'' = Some p" "map_of df ''Area_sqft'' = Some a"
  shows "notna_mask [''Price'', ''Area_sqft''] df
         = map (\<lambda>pa. notna (fst pa) \<and> notna (snd pa)) (zip (cells p) (cells a))"
proof -
  have lp: "length (cells p) = nrows df" and la: "length (cells a) = nrows df"
    using assms by (auto dest: wf_length)
  have "map2 (\<and>) (map notna (cells a)) (replicate (nrows df) True) = map notna (cells a)"
    using la by (simp add: list_eq_iff_nth_eq)
  moreover have "map2 (\<and>) (map notna (cells p)) (map notna (cells a))
      = map (\<lambda>pa. notna (fst pa) \<and> notna (snd pa)) (zip (cells p) (cells a))"
    by (simp add: zip_map_map case_prod_unfold)
  ultimately show ?thesis
    using assms by (simp add: notna_mask_def col_cells_def)
qed

lemma select_twice:
  assumes "length ps = length xs" "length as = length xs"
  shows "select (map positive (select (map (\<lambda>pa. notna (fst pa) \<and> notna (snd pa)) (zip ps as)) as))
            (select (map (\<lambda>pa. notna (fst pa) \<and> notna (snd pa)) (zip ps as)) xs)
         = select (map row_ok (zip ps as)) xs"
proof -
  let ?ok1 = "\<lambda>pa. notna (fst pa) \<and> notna (snd pa)"
  let ?R = "zip ps as"
  let ?Z = "filter (\<lambda>z. ?ok1 (fst z)) (zip ?R xs)"
  have lR: "length ?R = length xs" using assms by simp
  have a_eq: "as = map (\<lambda>z. snd (fst z)) (zip ?R xs)"
    using assms by (simp add: list_eq_iff_nth_eq)
  have sel_x: "select (map ?ok1 ?R) xs = map snd ?Z"
    using lR by (rule select_map_zip)
  have a_eq': "map (\<lambda>z. snd (fst z)) (zip ?R xs) = as"
    using a_eq by simp
  have "select (map ?ok1 ?R) (map (\<lambda>z. snd (fst z)) (zip ?R xs)) = map (\<lambda>z. snd (fst z)) ?Z"
    using lR by (rule select_map_zip_f)
  then have sel_a: "select (map ?ok1 ?R) as = map (\<lambda>z. snd (fst z)) ?Z"
    by (simp only: a_eq')
  have "select (map positive (map (\<lambda>z. snd (fst z)) ?Z)) (map snd ?Z)
        = map snd (filter (\<lambda>z. positive (snd (fst z))) ?Z)"
    using select_map_map [of "\<lambda>z. positive (snd (fst z))" ?Z snd] by (simp add: comp_def)
  also have "\<dots> = map snd (filter (\<lambda>z. row_ok (fst z)) (zip ?R xs))"
    by (simp add: row_ok_def conj_commute conj_left_commute cong: conj_cong)
  also have "\<dots> = select (map row_ok ?R) xs"
    using lR by (simp add: select_map_zip)
  finally show ?thesis
    using sel_x sel_a by simp
qed

lemma drop_rows_spec:
  assumes wf: "wf_df df" and ok: "drop_rows df = Inr df0"
  shows "df0 = take_rows (survivors df) df"
proof -
  from ok obtain p a where p: "map_of df ''Price'' = Some p" and a: "map_of df ''Area_sqft'' = Some a"
    by (auto simp: drop_rows_def dropna_def Let_def map_of_columns [symmetric] split: if_splits)
  let ?k1 = "map (\<lambda>pa. notna (fst pa) \<and> notna (snd pa)) (zip (cells p) (cells a))"
  have drop1: "dropna [''Price'', ''Area_sqft''] df = Inr (take_rows ?k1 df)"
    using p a notna_mask_price_area [OF wf p a]
    by (auto simp: dropna_def Let_def map_of_columns [symmetric])
  have a1: "getitem (take_rows ?k1 df) ''Area_sqft'' = Inr (Series (dtype a) (select ?k1 (cells a)))"
    using a by (simp add: getitem_def map_of_take_rows)
  from ok drop1 a1 obtain k2 where k2: "traverse gt_zero (select ?k1 (cells a)) = Inr k2"
      and df0: "df0 = take_rows k2 (take_rows ?k1 df)"
    by (auto simp: drop_rows_def split: sum.splits)
  have k2_eq: "k2 = map positive (select ?k1 (cells a))"
    using k2 by (rule traverse_gt_zero)
  have lp: "length (cells p) = nrows df" and la: "length (cells a) = nrows df"
    using wf p a by (auto dest: wf_length)
  have "take_rows k2 (take_rows ?k1 df) = take_rows (survivors df) df"
    unfolding take_rows_def map_map comp_def
  proof (rule map_cong [OF refl])
    fix ks assume "ks \<in> set df"
    then have "length (cells (snd ks)) = nrows df"
      using wf by (auto simp: wf_df_def list_all_iff)
    then have "select k2 (select ?k1 (cells (snd ks))) = select (map row_ok (zip (cells p) (cells a))) (cells (snd ks))"
      unfolding k2_eq using lp la by (intro select_twice) simp_all
    then show "(case case ks of (k, s) \<Rightarrow> (k, Series (dtype s) (select ?k1 (cells s))) of
          (k, s) \<Rightarrow> (k, Series (dtype s) (select k2 (cells s))))
        = (case ks of (k, s) \<Rightarrow> (k, Series (dtype s) (select (survivors df) (cells s))))"
      using p a by (cases ks) (simp add: survivors_def col_cells_def)
  qed
  with df0 show ?thesis by simp
qed

lemma map_of_drop_columns:
  "map_of (drop_columns ks df) k = (if k \<in> set ks then None else map_of df k)"
  by (induction df) (auto simp: drop_columns_def)

lemma columns_drop_columns:
  "columns (drop_columns ks df) = filter (\<lambda>k. k \<notin> set ks) (columns df)"
  by (induction df) (auto simp: drop_columns_def columns_def)

lemma getitem_list_Inr:
  "getitem_list d ks = Inr out \<Longrightarrow>
     columns out = ks \<and> map_of out k = (if k \<in> set ks then map_of d k else None)"
proof (induction ks arbitrary: out)
  case Nil
  then show ?case by (simp add: getitem_list_def columns_def)
next
  case (Cons a ks)
  then show ?case
    by (auto simp: getitem_list_def getitem_def columns_def split: sum.splits option.splits)
qed

lemma getitem_list_total:
  "set ks \<subseteq> set (columns d) \<Longrightarrow> \<exists>out. getitem_list d ks = Inr out"
proof (induction ks)
  case Nil
  then show ?case by (simp add: getitem_list_def)
next
  case (Cons a ks)
  then obtain out where "getitem_list d ks = Inr out" by auto
  moreover from Cons.prems obtain s where "map_of d a = Some s"
    by (cases "map_of d a") (auto simp: map_of_columns)
  ultimately show ?case
    by (auto simp: getitem_list_def getitem_def)
qed

lemma select_final_total: "\<exists>out. select_final df = Inr out"
  unfolding select_final_def Let_def by (rule getitem_list_total) auto

lemma select_final_Inr:
  assumes "select_final df = Inr out"
  shows "columns out = filter (\<lambda>c. c \<in> set (columns df)) final_cols_order"
    and "map_of out k = (if k \<in> set final_cols_order then map_of df k else None)"
proof -
  let ?d = "drop_columns [''Property_Age'', ''Water Availability''] df"
  let ?ks = "filter (\<lambda>col. col \<in> set (columns ?d)) final_cols_order"
  have g: "getitem_list ?d ?ks = Inr out"
    using assms by (simp add: select_final_def Let_def)
  have nd: "''Property_Age'' \<notin> set final_cols_order" "''Water Availability'' \<notin> set final_cols_order"
    by (simp_all add: final_cols_order_def)
  have ks: "?ks = filter (\<lambda>c. c \<in> set (columns df)) final_cols_order"
    using nd by (intro filter_cong refl) (auto simp: columns_drop_columns)
  show "columns out = filter (\<lambda>c. c \<in> set (columns df)) final_cols_order"
    using getitem_list_Inr [OF g] ks by simp
  have "map_of out k = (if k \<in> set ?ks then map_of ?d k else None)"
    using getitem_list_Inr [OF g] by simp
  also have "\<dots> = (if k \<in> set final_cols_order then map_of df k else None)"
    using nd by (auto simp: ks map_of_drop_columns map_of_columns [symmetric])
  finally show "map_of out k = (if k \<in> set final_cols_order then map_of df k else None)" .
qed

lemma impute_numeric_other:
  "impute_numeric ops c df = Inr df' \<Longrightarrow> k \<noteq> c \<Longrightarrow> map_of df' k = map_of df k"
  by (auto simp: impute_numeric_def map_of_setitem split: option.splits sum.splits)

lemma impute_numeric_columns:
  "impute_numeric ops c df = Inr df' \<Longrightarrow> columns df' = columns df"
  by (auto simp: impute_numeric_def columns_setitem map_of_columns [symmetric]
           split: option.splits sum.splits)

lemma impute_numeric_self:
  "impute_numeric ops c df = Inr df' \<Longrightarrow> map_of df c = Some s \<Longrightarrow>
     \<exists>m. median ops (cells s) = Inr m \<and> map_of df' c = Some (fillna m s)"
  by (auto simp: impute_numeric_def map_of_setitem split: option.splits sum.splits)

lemma for_each_impute_numeric_other:
  "for_each (impute_numeric ops) cols df = Inr df' \<Longrightarrow> k \<notin> set cols \<Longrightarrow> map_of df' k = map_of df k"
proof (induction cols arbitrary: df)
  case Nil
  then show ?case by simp
next
  case (Cons c cols)
  then show ?case
    by (auto split: sum.splits dest: impute_numeric_other)
qed

lemma for_each_impute_numeric_columns:
  "for_each (impute_numeric ops) cols df = Inr df' \<Longrightarrow> columns df' = columns df"
proof (induction cols arbitrary: df)
  case Nil
  then show ?case by simp
next
  case (Cons c cols)
  then show ?case
    by (auto split: sum.splits dest: impute_numeric_columns)
qed

lemma for_each_impute_numeric_self:
  "for_each (impute_numeric ops) cols df = Inr df' \<Longrightarrow> distinct cols \<Longrightarrow> k \<in> set cols \<Longrightarrow>
   map_of df k = Some s \<Longrightarrow>
     \<exists>m. median ops (cells s) = Inr m \<and> map_of df' k = Some (fillna m s)"
proof (induction cols arbitrary: df)
  case Nil
  then show ?case by simp
next
  case (Cons c cols)
  from Cons.prems(1) obtain d where d: "impute_numeric ops c df = Inr d"
    and rest: "for_each (impute_numeric ops) cols d = Inr df'"
    by (auto split: sum.splits)
  show ?case
  proof (cases "k = c")
    case True
    with Cons.prems have "k \<notin> set cols" by simp
    then have "map_of df' k = map_of d k"
      using rest by (rule for_each_impute_numeric_other [rotated])
    with impute_numeric_self [OF d] True Cons.prems(4) show ?thesis by auto
  next
    case False
    then have "map_of d k = Some s"
      using impute_numeric_other [OF d] Cons.prems(4) by simp
    with Cons.IH [OF rest] Cons.prems False show ?thesis by simp
  qed
qed

lemma impute_categorical_other:
  "impute_categorical c df = Inr df' \<Longrightarrow> k \<noteq> c \<Longrightarrow> map_of df' k = map_of df k"
  by (auto simp: impute_categorical_def map_of_setitem split: option.splits)

lemma impute_categorical_columns:
  "impute_categorical c df = Inr df' \<Longrightarrow> columns df' = columns df"
  by (auto simp: impute_categorical_def columns_setitem map_of_columns [symmetric]
           split: option.splits)

lemma impute_categorical_self:
  "impute_categorical c df = Inr df' \<Longrightarrow>
     map_of df' c = map_option (fillna (Str ''Not Specified'')) (map_of df c)"
  by (auto simp: impute_categorical_def map_of_setitem split: option.splits)

lemma for_each_impute_categorical_total:
  "\<exists>df'. for_each impute_categorical cols df = Inr df'"
proof (induction cols arbitrary: df)
  case Nil
  then show ?case by simp
next
  case (Cons c cols)
  obtain d where "impute_categorical c df = Inr d"
    by (cases "map_of df c") (auto simp: impute_categorical_def)
  with Cons show ?case by auto
qed

lemma for_each_impute_categorical_other:
  "for_each impute_categorical cols df = Inr df' \<Longrightarrow> k \<notin> set cols \<Longrightarrow> map_of df' k = map_of df k"
proof (induction cols arbitrary: df)
  case Nil
  then show ?case by simp
next
  case (Cons c cols)
  then show ?case
    by (auto split: sum.splits dest: impute_categorical_other)
qed

lemma for_each_impute_categorical_columns:
  "for_each impute_categorical cols df = Inr df' \<Longrightarrow> columns df' = columns df"
proof (induction cols arbitrary: df)
  case Nil
  then show ?case by simp
next
  case (Cons c cols)
  then show ?case
    by (auto split: sum.splits dest: impute_categorical_columns)
qed

lemma for_each_impute_categorical_self:
  "for_each impute_categorical cols df = Inr df' \<Longrightarrow> distinct cols \<Longrightarrow> k \<in> set cols \<Longrightarrow>
     map_of df' k = map_option (fillna (Str ''Not Specified'')) (map_of df k)"
proof (induction cols arbitrary: df)
  case Nil
  then show ?case by simp
next
  case (Cons c cols)
  from Cons.prems(1) obtain d where d: "impute_categorical c df = Inr d"
    and rest: "for_each impute_categorical cols d = Inr df'"
    by (auto split: sum.splits)
  show ?case
  proof (cases "k = c")
    case True
    with Cons.prems have "k \<notin> set cols" by simp
    then have "map_of df' k = map_of d k"
      using rest by (rule for_each_impute_categorical_other [rotated])
    with impute_categorical_self [OF d] True show ?thesis by simp
  next
    case False
    then have "map_of d k = map_of df k"
      using impute_categorical_other [OF d] by simp
    with Cons.IH [OF rest] Cons.prems False show ?thesis by simp
  qed
qed

lemma add_age_Inr:
  assumes "add_age df = Inr df'"
  shows "\<exists>s. map_of df ''Property_Age'' = Some s \<and>
           df' = setitem ''Age_in_Years''
                   (fillna (Num (-1)) (Series Float64 (map (map_dict age_map) (cells s)))) df"
  using assms by (auto simp: add_age_def getitem_def split: option.splits)

lemma add_price_per_sqft_Inr:
  assumes "add_price_per_sqft ops df = Inr df'"
  shows "\<exists>p a q. map_of df ''Price'' = Some p \<and> map_of df ''Area_sqft'' = Some a \<and>
           traverse (div_cell ops) (zip (cells p) (cells a)) = Inr q \<and>
           df' = setitem ''Price_per_sqft'' (Series Float64 (map (round_cell ops) q)) df"
  using assms by (auto simp: add_price_per_sqft_def getitem_def split: option.splits sum.splits)

lemma add_water_status_Inr:
  assumes "add_water_status df = Inr df'"
  shows "\<exists>w. map_of df ''Water Availability'' = Some w \<and> dtype w = Object \<and>
           (\<forall>k. map_of df' k =
              (if k = ''Water_Availability_Status''
               then Some (Series Object
                      (map (str_method strip) (map (str_method replace_space)
                         (cells (fillna (Str ''Not Specified'') (Series Object (map str_extract (cells w))))))))
               else map_of df k)) \<and>
           set (columns df') = insert ''Water_Availability_Status'' (set (columns df))"
  using assms
  by (auto simp: add_water_status_def getitem_def str_accessor_def map_of_setitem Let_def
                 set_columns_setitem
           split: option.splits sum.splits if_splits)

lemma transformE:
  assumes "transform ops df = Inr out"
  obtains df0 df1 df2 df3 df4 df5 where
    "drop_rows df = Inr df0"
    "for_each (impute_numeric ops) numerical_cols df0 = Inr df1"
    "for_each impute_categorical categorical_cols df1 = Inr df2"
    "add_age df2 = Inr df3"
    "add_water_status df3 = Inr df4"
    "add_price_per_sqft ops df4 = Inr df5"
    "select_final df5 = Inr out"
    "impute_missing ops df = Inr df2"
  using assms unfolding transform_def impute_missing_def by (auto split: sum.splits)

lemma transform_untouched:
  assumes wf: "wf_df df" and t: "transform ops df = Inr out"
    and k: "k \<in> set final_cols_order" "k \<notin> set numerical_cols" "k \<notin> set categorical_cols"
      "k \<noteq> ''Age_in_Years''" "k \<noteq> ''Water_Availability_Status''" "k \<noteq> ''Price_per_sqft''"
  shows "map_of out k =
           map_option (\<lambda>s. Series (dtype s) (select (survivors df) (cells s))) (map_of df k)"
proof -
  from t obtain df0 df1 df2 df3 df4 df5 where
    s0: "drop_rows df = Inr df0"
    and s1: "for_each (impute_numeric ops) numerical_cols df0 = Inr df1"
    and s2: "for_each impute_categorical categorical_cols df1 = Inr df2"
    and s3: "add_age df2 = Inr df3"
    and s4: "add_water_status df3 = Inr df4"
    and s5: "add_price_per_sqft ops df4 = Inr df5"
    and s6: "select_final df5 = Inr out"
    by (rule transformE)
  have "map_of out k = map_of df5 k"
    using select_final_Inr(2) [OF s6] k(1) by simp
  also have "\<dots> = map_of df4 k"
    using add_price_per_sqft_Inr [OF s5] k(6) by (auto simp: map_of_setitem)
  also have "\<dots> = map_of df3 k"
    using add_water_status_Inr [OF s4] k(5) by auto
  also have "\<dots> = map_of df2 k"
    using add_age_Inr [OF s3] k(4) by (auto simp: map_of_setitem)
  also have "\<dots> = map_of df1 k"
    using s2 k(3) by (rule for_each_impute_categorical_other)
  also have "\<dots> = map_of df0 k"
    using s1 k(2) by (rule for_each_impute_numeric_other)
  also have "\<dots> = map_option (\<lambda>s. Series (dtype s) (select (survivors df) (cells s))) (map_of df k)"
    using drop_rows_spec [OF wf s0] by (simp add: map_of_take_rows)
  finally show ?thesis .
qed

lemma drop_rows_present:
  assumes "drop_rows df = Inr df0"
  shows "\<exists>p a. map_of df ''Price'' = Some p \<and> map_of df ''Area_sqft'' = Some a"
  using assms
  by (auto simp: drop_rows_def dropna_def Let_def map_of_columns [symmetric] split: if_splits)

lemma price_area_out:
  assumes wf: "wf_df df" and t: "transform ops df = Inr out"
  shows "zip (col_cells out ''Price'') (col_cells out ''Area_sqft'')
           = filter row_ok (zip (col_cells df ''Price'') (col_cells df ''Area_sqft''))"
    and "col_cells out ''Price'' = post_filter df ''Price''"
    and "col_cells out ''Area_sqft'' = post_filter df ''Area_sqft''"
    and "''Price'' \<in> set (columns out)" and "''Area_sqft'' \<in> set (columns out)"
    and "col_cells out ''Price''
           = map fst (filter row_ok (zip (col_cells df ''Price'') (col_cells df ''Area_sqft'')))"
    and "col_cells out ''Area_sqft''
           = map snd (filter row_ok (zip (col_cells df ''Price'') (col_cells df ''Area_sqft'')))"
proof -
  from t obtain df0 where s0: "drop_rows df = Inr df0"
    by (rule transformE)
  from drop_rows_present [OF s0] obtain p a where
    p: "map_of df ''Price'' = Some p" and a: "map_of df ''Area_sqft'' = Some a" by auto
  have op: "map_of out ''Price'' = Some (Series (dtype p) (select (survivors df) (cells p)))"
    using transform_untouched [OF wf t, of "''Price''"] p
    by (simp add: final_cols_order_def numerical_cols_def categorical_cols_def)
  have oa: "map_of out ''Area_sqft'' = Some (Series (dtype a) (select (survivors df) (cells a)))"
    using transform_untouched [OF wf t, of "''Area_sqft''"] a
    by (simp add: final_cols_order_def numerical_cols_def categorical_cols_def)
  show P: "col_cells out ''Price'' = post_filter df ''Price''"
    using op p by (simp add: col_cells_def post_filter_def)
  show A: "col_cells out ''Area_sqft'' = post_filter df ''Area_sqft''"
    using oa a by (simp add: col_cells_def post_filter_def)
  show "''Price'' \<in> set (columns out)"
    using op map_of_columns [of out "''Price''"] by simp
  show "''Area_sqft'' \<in> set (columns out)"
    using oa map_of_columns [of out "''Area_sqft''"] by simp
  have len: "length (cells p) = length (cells a)"
    using wf p a by (simp add: wf_length)
  let ?R = "zip (cells p) (cells a)"
  have "select (map row_ok ?R) (map fst ?R) = map fst (filter row_ok ?R)"
       "select (map row_ok ?R) (map snd ?R) = map snd (filter row_ok ?R)"
    by (rule select_map_map)+
  then have F: "select (survivors df) (cells p) = map fst (filter row_ok ?R)"
       "select (survivors df) (cells a) = map snd (filter row_ok ?R)"
    using len p a by (simp_all add: survivors_def col_cells_def)
  show "col_cells out ''Price''
           = map fst (filter row_ok (zip (col_cells df ''Price'') (col_cells df ''Area_sqft'')))"
    using F P p a by (simp add: col_cells_def post_filter_def)
  show "col_cells out ''Area_sqft''
           = map snd (filter row_ok (zip (col_cells df ''Price'') (col_cells df ''Area_sqft'')))"
    using F A p a by (simp add: col_cells_def post_filter_def)
  from F show "zip (col_cells out ''Price'') (col_cells out ''Area_sqft'')
           = filter row_ok (zip (col_cells df ''Price'') (col_cells df ''Area_sqft''))"
    using P A p a by (simp add: col_cells_def post_filter_def zip_map_fst_snd)
qed

lemma notna_iff: "notna c = (c \<noteq> NaN)"
  by (cases c) simp_all

lemma positive_iff: "positive c = (\<exists>x. c = Num x \<and> 0 < x)"
  by (cases c) simp_all


lemma example_run: "transform exact_ops df_example = Inr out_example"
  by code_simp

lemma wf_example: "wf_df df_example"
  by (simp add: wf_df_def df_example_def nrows_def)



lemma col_cells_take_rows:
  "col_cells (take_rows keep df) k = select keep (col_cells df k)"
  by (cases "map_of df k") (simp_all add: col_cells_def map_of_take_rows select_def)

lemma col_cells_cong: "map_of d k = map_of d' k \<Longrightarrow> col_cells d k = col_cells d' k"
  by (simp add: col_cells_def)

lemma post_filter_drop_rows:
  "wf_df df \<Longrightarrow> drop_rows df = Inr df0 \<Longrightarrow> col_cells df0 k = post_filter df k"
  using drop_rows_spec [of df df0] by (simp add: col_cells_take_rows post_filter_def)



lemma distinct_categorical_cols: "distinct categorical_cols"
  by (simp add: categorical_cols_def)

lemma distinct_numerical_cols: "distinct numerical_cols"
  by (simp add: numerical_cols_def)

lemma cells_fillna: "cells (fillna v s) = map (\<lambda>c. if c = NaN then v else c) (cells s)"
  by (simp add: fillna_def)

lemma col_cells_map_option:
  "map_of d' k = map_option f (map_of d k) \<Longrightarrow> (\<And>s. cells (f s) = g (cells s)) \<Longrightarrow> g [] = []
     \<Longrightarrow> col_cells d' k = g (col_cells d k)"
  by (cases "map_of d k") (simp_all add: col_cells_def)

lemma impute_missing_categorical:
  assumes wf: "wf_df df" and i: "impute_missing ops df = Inr df2" and k: "k \<in> set categorical_cols"
  shows "col_cells df2 k = map (\<lambda>c. if c = NaN then Str ''Not Specified'' else c) (post_filter df k)"
    and "(k \<in> set (columns df2)) = (k \<in> set (columns df))"
proof -
  from i obtain df0 df1 where s0: "drop_rows df = Inr df0"
    and s1: "for_each (impute_numeric ops) numerical_cols df0 = Inr df1"
    and s2: "for_each impute_categorical categorical_cols df1 = Inr df2"
    by (auto simp: impute_missing_def split: sum.splits)
  have kn: "k \<notin> set numerical_cols"
    using k by (auto simp: numerical_cols_def categorical_cols_def)
  have m: "map_of df2 k = map_option (fillna (Str ''Not Specified'')) (map_of df1 k)"
    using s2 distinct_categorical_cols k by (rule for_each_impute_categorical_self)
  have m1: "map_of df1 k = map_of df0 k"
    using s1 kn by (rule for_each_impute_numeric_other)
  have "col_cells df2 k = map (\<lambda>c. if c = NaN then Str ''Not Specified'' else c) (col_cells df0 k)"
    using m m1 by (intro col_cells_map_option [where f = "fillna (Str ''Not Specified'')"])
                  (simp_all add: cells_fillna)
  then show "col_cells df2 k = map (\<lambda>c. if c = NaN then Str ''Not Specified'' else c) (post_filter df k)"
    using post_filter_drop_rows [OF wf s0] by simp
  have "columns df2 = columns df1" using s2 by (rule for_each_impute_categorical_columns)
  also have "\<dots> = columns df0" using s1 by (rule for_each_impute_numeric_columns)
  also have "\<dots> = columns df" using drop_rows_spec [OF wf s0] by (simp add: columns_take_rows)
  finally show "(k \<in> set (columns df2)) = (k \<in> set (columns df))" by simp
qed

lemma later_steps_untouched:
  assumes s3: "add_age df2 = Inr df3"
    and s4: "add_water_status df3 = Inr df4"
    and s5: "add_price_per_sqft ops df4 = Inr df5"
    and s6: "select_final df5 = Inr out"
    and k: "k \<in> set final_cols_order"
      "k \<noteq> ''Age_in_Years''" "k \<noteq> ''Water_Availability_Status''" "k \<noteq> ''Price_per_sqft''"
  shows "map_of out k = map_of df2 k"
proof -
  have "map_of out k = map_of df5 k"
    using select_final_Inr(2) [OF s6] k(1) by simp
  also have "\<dots> = map_of df4 k"
    using add_price_per_sqft_Inr [OF s5] k(4) by (auto simp: map_of_setitem)
  also have "\<dots> = map_of df3 k"
    using add_water_status_Inr [OF s4] k(3) by auto
  also have "\<dots> = map_of df2 k"
    using add_age_Inr [OF s3] k(2) by (auto simp: map_of_setitem)
  finally show ?thesis .
qed

lemma columns_iff_map_of: "map_of d k = map_of d' k \<Longrightarrow> (k \<in> set (columns d)) = (k \<in> set (columns d'))"
  using map_of_columns [of d k] map_of_columns [of d' k] by simp


lemma age_cell:
  fixes a :: cell
  defines "g \<equiv> (let v = map_dict age_map (if a = NaN then Str ''Not Specified'' else a)
                  in if v = NaN then Num (-1) else v)"
  shows "(a = Str ''New Construction'' \<longrightarrow> g = Num 0)
       \<and> (a = Str ''Less than 5 years old'' \<longrightarrow> g = Num 2.5)
       \<and> (a = Str ''5 to 10 years old'' \<longrightarrow> g = Num 7.5)
       \<and> (a = Str ''10 to 15 years old'' \<longrightarrow> g = Num 12.5)
       \<and> (a = Str ''15 to 20 years old'' \<longrightarrow> g = Num 17.5)
       \<and> (a = Str ''Above 20 years old'' \<longrightarrow> g = Num 25)
       \<and> (a \<notin> {Str ''New Construction'', Str ''Less than 5 years old'', Str ''5 to 10 years old'',
                 Str ''10 to 15 years old'', Str ''15 to 20 years old'', Str ''Above 20 years old''}
            \<longrightarrow> g = Num (-1))"
  unfolding g_def by (cases a) (simp_all add: age_map_def Let_def)

lemma age_cell_range:
  "(let v = map_dict age_map (if a = NaN then Str ''Not Specified'' else a)
    in if v = NaN then Num (-1) else v)
     \<in> {Num 0, Num 2.5, Num 7.5, Num 12.5, Num 17.5, Num 25, Num (-1)}"
  by (cases a) (simp_all add: age_map_def Let_def)

lemma age_out:
  assumes wf: "wf_df df" and t: "transform ops df = Inr out"
  shows "map_of out ''Age_in_Years'' =
           Some (Series Float64
             (map (\<lambda>a. let v = map_dict age_map (if a = NaN then Str ''Not Specified'' else a)
                        in if v = NaN then Num (-1) else v)
                  (post_filter df ''Property_Age'')))"
proof -
  from t obtain df2 df3 df4 df5 where
    s3: "add_age df2 = Inr df3"
    and s4: "add_water_status df3 = Inr df4"
    and s5: "add_price_per_sqft ops df4 = Inr df5"
    and s6: "select_final df5 = Inr out"
    and i: "impute_missing ops df = Inr df2"
    by (rule transformE)
  from add_age_Inr [OF s3] obtain s where s: "map_of df2 ''Property_Age'' = Some s"
    and df3: "df3 = setitem ''Age_in_Years''
                   (fillna (Num (-1)) (Series Float64 (map (map_dict age_map) (cells s)))) df2"
    by auto
  have "col_cells df2 ''Property_Age''
          = map (\<lambda>c. if c = NaN then Str ''Not Specified'' else c) (post_filter df ''Property_Age'')"
    using wf i by (rule impute_missing_categorical(1)) (simp add: categorical_cols_def)
  then have cs: "cells s = map (\<lambda>c. if c = NaN then Str ''Not Specified'' else c) (post_filter df ''Property_Age'')"
    using s by (simp add: col_cells_def)
  have "map_of out ''Age_in_Years'' = map_of df5 ''Age_in_Years''"
    using select_final_Inr(2) [OF s6] by (simp add: final_cols_order_def)
  also have "\<dots> = map_of df4 ''Age_in_Years''"
    using add_price_per_sqft_Inr [OF s5] by (auto simp: map_of_setitem)
  also have "\<dots> = map_of df3 ''Age_in_Years''"
    using add_water_status_Inr [OF s4] by auto
  also have "\<dots> = Some (fillna (Num (-1)) (Series Float64 (map (map_dict age_map) (cells s))))"
    by (simp add: df3 map_of_setitem)
  finally show ?thesis
    by (simp add: cs fillna_def Let_def comp_def)
qed


lemma all_missing_run: "transform exact_ops df_all_missing = Inr out_all_missing"
  by code_simp

lemma sort_eq_Nil: "(sort xs = []) = (xs = [])"
  using length_sort [of "\<lambda>x. x" xs] by (metis length_0_conv)

lemma median_cases:
  assumes "median ops cs = Inr m"
  shows "m = (if nums cs = [] then NaN else Num (middle ops (sort (nums cs))))"
  using assms by (auto simp: median_def Let_def sort_eq_Nil split: if_splits)

lemma impute_missing_numeric:
  assumes wf: "wf_df df" and i: "impute_missing ops df = Inr df2"
    and k: "k \<in> set numerical_cols" and kin: "k \<in> set (columns df)"
  shows "col_cells df2 k =
           map (\<lambda>c. if c = NaN
                     then (if nums (post_filter df k) = [] then NaN
                           else Num (middle ops (sort (nums (post_filter df k)))))
                     else c) (post_filter df k)"
    and "k \<in> set (columns df2)"
proof -
  from i obtain df0 df1 where s0: "drop_rows df = Inr df0"
    and s1: "for_each (impute_numeric ops) numerical_cols df0 = Inr df1"
    and s2: "for_each impute_categorical categorical_cols df1 = Inr df2"
    by (auto simp: impute_missing_def split: sum.splits)
  have kc: "k \<notin> set categorical_cols"
    using k by (auto simp: numerical_cols_def categorical_cols_def)
  have cols0: "columns df0 = columns df"
    using drop_rows_spec [OF wf s0] by (simp add: columns_take_rows)
  then obtain s where s: "map_of df0 k = Some s"
    using kin map_of_columns [of df0 k] by (cases "map_of df0 k") auto
  have cs: "cells s = post_filter df k"
    using post_filter_drop_rows [OF wf s0, of k] s by (simp add: col_cells_def)
  from for_each_impute_numeric_self [OF s1 distinct_numerical_cols k s] obtain m where
    m: "median ops (cells s) = Inr m" and m1: "map_of df1 k = Some (fillna m s)"
    by auto
  have m2: "map_of df2 k = map_of df1 k"
    using s2 kc by (rule for_each_impute_categorical_other)
  show "col_cells df2 k =
           map (\<lambda>c. if c = NaN
                     then (if nums (post_filter df k) = [] then NaN
                           else Num (middle ops (sort (nums (post_filter df k)))))
                     else c) (post_filter df k)"
    using m2 m1 median_cases [OF m] by (simp add: col_cells_def cells_fillna cs)
  show "k \<in> set (columns df2)"
    using m2 m1 map_of_columns [of df2 k] by simp
qed

lemma full_run: "transform exact_ops df_full = Inr out_full"
  by code_simp

lemma no_age_run: "transform exact_ops df_no_age = Inl (KeyError [''Property_Age''])"
  by code_simp

lemma drop_rows_columns: "drop_rows df = Inr df0 \<Longrightarrow> columns df0 = columns df"
  by (auto simp: drop_rows_def dropna_def Let_def columns_take_rows split: sum.splits if_splits)

lemma impute_missing_columns:
  assumes "impute_missing ops df = Inr df2"
  shows "columns df2 = columns df"
proof -
  from assms obtain df0 df1 where s0: "drop_rows df = Inr df0"
    and s1: "for_each (impute_numeric ops) numerical_cols df0 = Inr df1"
    and s2: "for_each impute_categorical categorical_cols df1 = Inr df2"
    by (auto simp: impute_missing_def split: sum.splits)
  have "columns df2 = columns df1" using s2 by (rule for_each_impute_categorical_columns)
  also have "\<dots> = columns df0" using s1 by (rule for_each_impute_numeric_columns)
  also have "\<dots> = columns df" using s0 by (rule drop_rows_columns)
  finally show ?thesis .
qed

lemma columns_before_selection:
  assumes "impute_missing ops df = Inr df2" "add_age df2 = Inr df3" "add_water_status df3 = Inr df4"
    "add_price_per_sqft ops df4 = Inr df5"
  shows "set (columns df3) = insert ''Age_in_Years'' (set (columns df))"
    and "set (columns df4) = insert ''Water_Availability_Status'' (set (columns df3))"
    and "set (columns df5) = insert ''Price_per_sqft'' (set (columns df4))"
proof -
  show "set (columns df3) = insert ''Age_in_Years'' (set (columns df))"
    using add_age_Inr [OF assms(2)] impute_missing_columns [OF assms(1)]
    by (auto simp: set_columns_setitem)
  show "set (columns df4) = insert ''Water_Availability_Status'' (set (columns df3))"
    using add_water_status_Inr [OF assms(3)] by blast
  show "set (columns df5) = insert ''Price_per_sqft'' (set (columns df4))"
    using add_price_per_sqft_Inr [OF assms(4)] by (auto simp: set_columns_setitem)
qed


lemma traverse_Inl: "traverse f xs = Inl e \<Longrightarrow> \<exists>x\<in>set xs. f x = Inl e"
  by (induction xs) (auto split: sum.splits)

lemma gt_zero_Inl: "gt_zero c = Inl e \<Longrightarrow> e = TypeError"
  by (cases c) auto

lemma div_cell_Inl: "div_cell ops z = Inl e \<Longrightarrow> e = TypeError"
  by (cases "(ops, z)" rule: div_cell.cases) auto

lemma drop_rows_Inl:
  assumes "drop_rows df = Inl e" "''Price'' \<in> set (columns df)" "''Area_sqft'' \<in> set (columns df)"
  shows "e = TypeError"
proof -
  have d: "dropna [''Price'', ''Area_sqft''] df
             = Inr (take_rows (notna_mask [''Price'', ''Area_sqft''] df) df)"
    using assms(2,3) by (simp add: dropna_def)
  obtain a where a: "map_of df ''Area_sqft'' = Some a"
    using assms(3) map_of_columns [of df "''Area_sqft''"] by (cases "map_of df ''Area_sqft''") auto
  from assms(1) d a show ?thesis
    by (auto simp: drop_rows_def getitem_def map_of_take_rows split: sum.splits
             dest!: traverse_Inl gt_zero_Inl)
qed

lemma impute_numeric_Inl: "impute_numeric ops c df = Inl e \<Longrightarrow> e = TypeError"
  by (auto simp: impute_numeric_def median_def Let_def split: option.splits sum.splits if_splits)

lemma for_each_impute_numeric_Inl:
  "for_each (impute_numeric ops) cols df = Inl e \<Longrightarrow> e = TypeError"
proof (induction cols arbitrary: df)
  case Nil
  then show ?case by simp
next
  case (Cons c cols)
  then show ?case by (auto split: sum.splits dest: impute_numeric_Inl)
qed

lemma impute_missing_Inl:
  assumes "impute_missing ops df = Inl e" "''Price'' \<in> set (columns df)" "''Area_sqft'' \<in> set (columns df)"
  shows "e = TypeError"
proof (cases "drop_rows df")
  case (Inl e0)
  with assms show ?thesis by (auto simp: impute_missing_def dest: drop_rows_Inl)
next
  case (Inr df0)
  show ?thesis
  proof (cases "for_each (impute_numeric ops) numerical_cols df0")
    case (Inl e1)
    with Inr assms(1) show ?thesis
      by (auto simp: impute_missing_def dest: for_each_impute_numeric_Inl)
  next
    case (Inr df1)
    with \<open>drop_rows df = Inr df0\<close> assms(1) for_each_impute_categorical_total [of categorical_cols df1]
    show ?thesis by (auto simp: impute_missing_def)
  qed
qed

lemma add_age_Inl: "add_age d = Inl e \<Longrightarrow> ''Property_Age'' \<notin> set (columns d)"
  by (auto simp: add_age_def getitem_def map_of_columns [symmetric] split: option.splits)

lemma add_water_status_Inl:
  "add_water_status d = Inl e \<Longrightarrow> ''Water Availability'' \<in> set (columns d) \<Longrightarrow> e = AttributeError"
  by (auto simp: add_water_status_def getitem_def str_accessor_def map_of_setitem Let_def
                 map_of_columns
           split: option.splits sum.splits if_splits)

lemma add_price_per_sqft_Inl:
  "add_price_per_sqft ops d = Inl e \<Longrightarrow> ''Price'' \<in> set (columns d) \<Longrightarrow>
   ''Area_sqft'' \<in> set (columns d) \<Longrightarrow> e = TypeError"
  by (auto simp: add_price_per_sqft_def getitem_def map_of_columns
           split: option.splits sum.splits dest!: traverse_Inl div_cell_Inl)

lemma add_age_columns:
  "add_age d = Inr d' \<Longrightarrow> set (columns d') = insert ''Age_in_Years'' (set (columns d))"
  using add_age_Inr [of d d'] by (auto simp: set_columns_setitem)

lemma add_water_status_columns:
  "add_water_status d = Inr d' \<Longrightarrow>
     set (columns d') = insert ''Water_Availability_Status'' (set (columns d))"
  using add_water_status_Inr [of d d'] by blast

lemma transform_Inl:
  assumes t: "transform ops df = Inl e"
    and c: "''Price'' \<in> set (columns df)" "''Area_sqft'' \<in> set (columns df)"
      "''Property_Age'' \<in> set (columns df)" "''Water Availability'' \<in> set (columns df)"
  shows "e = TypeError \<or> e = AttributeError"
proof (cases "impute_missing ops df")
  case (Inl e0)
  then have "e0 = TypeError" using c(1,2) by (rule impute_missing_Inl)
  moreover have "e = e0" using t Inl by (simp add: transform_def)
  ultimately show ?thesis by simp
next
  case i: (Inr df2)
  have c2: "columns df2 = columns df" using i by (rule impute_missing_columns)
  show ?thesis
  proof (cases "add_age df2")
    case (Inl e1)
    then have "''Property_Age'' \<notin> set (columns df2)" by (rule add_age_Inl)
    with c(3) c2 show ?thesis by simp
  next
    case s3: (Inr df3)
    have c3: "set (columns df3) = insert ''Age_in_Years'' (set (columns df))"
      using add_age_columns [OF s3] c2 by simp
    show ?thesis
    proof (cases "add_water_status df3")
      case (Inl e2)
      moreover have "''Water Availability'' \<in> set (columns df3)"
        using c(4) c3 by simp
      ultimately have "e2 = AttributeError" by (rule add_water_status_Inl)
      moreover have "e = e2" using t i s3 Inl by (simp add: transform_def)
      ultimately show ?thesis by simp
    next
      case s4: (Inr df4)
      have c4: "set (columns df4) = insert ''Water_Availability_Status'' (set (columns df3))"
        using s4 by (rule add_water_status_columns)
      show ?thesis
      proof (cases "add_price_per_sqft ops df4")
        case (Inl e3)
        moreover have "''Price'' \<in> set (columns df4)" "''Area_sqft'' \<in> set (columns df4)"
          using c(1,2) c3 c4 by simp_all
        ultimately have "e3 = TypeError" by (rule add_price_per_sqft_Inl)
        moreover have "e = e3" using t i s3 s4 Inl by (simp add: transform_def)
        ultimately show ?thesis by simp
      next
        case s5: (Inr df5)
        obtain out where "select_final df5 = Inr out"
          using select_final_total [of df5] by blast
        with t i s3 s4 s5 show ?thesis by (simp add: transform_def)
      qed
    qed
  qed
qed


subsection \<open>The pattern search\<close>


























subsection \<open>The output file\<close>

lemma finalize_writes_transform:
  assumes "files w input_csv_path = Csv df" and "transform ops df = Inr df_final"
    and "writable w output_csv_path"
  shows "finalize_property_data ops input_csv_path output_csv_path w
           = (Returned, w\<lparr>files := (files w)(output_csv_path := Csv df_final)\<rparr>)"
  using assms by (simp add: finalize_property_data_def read_csv_def to_csv_def)

lemma finalize_raises_transform:
  assumes "files w input_csv_path = Csv df" and "transform ops df = Inl e"
  shows "finalize_property_data ops input_csv_path output_csv_path w = (Raised e, w)"
  using assms by (simp add: finalize_property_data_def read_csv_def)

section \<open>The row filter\<close>

text \<open>
  Claim C1. For every input table, every row of the output table has a Price that is not
  missing and an Area_sqft that is not missing and is a number strictly greater than 0:
  both columns are in the output, they have one cell per output row, and every output row
  passes the filter, so no row that violates it is in the output.
\<close>

theorem output_rows_have_price_and_positive_area:
  assumes "wf_df df" and "transform ops df = Inr out"
  shows "''Price'' \<in> set (columns out) \<and> ''Area_sqft'' \<in> set (columns out)
       \<and> length (col_cells out ''Price'') = length (col_cells out ''Area_sqft'')
       \<and> list_all (\<lambda>c. c \<noteq> NaN) (col_cells out ''Price'')
       \<and> list_all (\<lambda>c. c \<noteq> NaN) (col_cells out ''Area_sqft'')
       \<and> list_all (\<lambda>c. \<exists>x. c = Num x \<and> 0 < x) (col_cells out ''Area_sqft'')
       \<and> list_all row_ok (zip (col_cells out ''Price'') (col_cells out ''Area_sqft''))"
proof -
  let ?R = "zip (col_cells df ''Price'') (col_cells df ''Area_sqft'')"
  have P: "col_cells out ''Price'' = map fst (filter row_ok ?R)"
    and A: "col_cells out ''Area_sqft'' = map snd (filter row_ok ?R)"
    using assms by (rule price_area_out(6), rule price_area_out(7))
  have "list_all (\<lambda>c. c \<noteq> NaN) (map fst (filter row_ok ?R))"
    by (auto simp: list_all_iff row_ok_def notna_iff)
  moreover have "list_all (\<lambda>c. c \<noteq> NaN) (map snd (filter row_ok ?R))"
    by (auto simp: list_all_iff row_ok_def notna_iff)
  moreover have "list_all (\<lambda>c. \<exists>x. c = Num x \<and> 0 < x) (map snd (filter row_ok ?R))"
    by (auto simp: list_all_iff row_ok_def positive_iff)
  moreover have "list_all row_ok (zip (map fst (filter row_ok ?R)) (map snd (filter row_ok ?R)))"
    by (simp add: zip_map_fst_snd list_all_iff)
  ultimately show ?thesis
    using price_area_out(4,5) [OF assms] by (simp add: P A)
qed

theorem output_rows_have_price_and_positive_area_witness:
  "wf_df df_example \<and> transform exact_ops df_example = Inr out_example
   \<and> ''Price'' \<in> set (columns out_example) \<and> ''Area_sqft'' \<in> set (columns out_example)
   \<and> col_cells out_example ''Price'' = [Num 1000000, Num 750000, Num 200000]
   \<and> col_cells out_example ''Area_sqft'' = [Num 500, Num 250, Num 100]
   \<and> list_all (\<lambda>c. c \<noteq> NaN) (col_cells out_example ''Price'')
   \<and> list_all (\<lambda>c. \<exists>x. c = Num x \<and> 0 < x) (col_cells out_example ''Area_sqft'')"
proof -
  have w: "wf_df df_example" by (rule wf_example)
  have r: "transform exact_ops df_example = Inr out_example" by (rule example_run)
  have c: "col_cells out_example ''Price'' = [Num 1000000, Num 750000, Num 200000]"
     "col_cells out_example ''Area_sqft'' = [Num 500, Num 250, Num 100]"
    by (simp_all add: out_example_def col_cells_def)
  show ?thesis
    using output_rows_have_price_and_positive_area [OF w r] w r c by simp
qed

text \<open>
  Claim C10. The rows that survive the filter appear in the output in the order they have
  in the input, with their Price and Area_sqft cells unchanged: the output rows, read as
  pairs of Price and Area_sqft, are the input pairs that pass the filter, in input order,
  and each of the two output columns is the input column restricted to the surviving rows.
\<close>

theorem surviving_rows_keep_order_and_values:
  assumes "wf_df df" and "transform ops df = Inr out"
  shows "zip (col_cells out ''Price'') (col_cells out ''Area_sqft'')
           = filter row_ok (zip (col_cells df ''Price'') (col_cells df ''Area_sqft''))
       \<and> col_cells out ''Price'' = post_filter df ''Price''
       \<and> col_cells out ''Area_sqft'' = post_filter df ''Area_sqft''"
  using price_area_out(1,2,3) [OF assms] by simp

theorem surviving_rows_keep_order_and_values_witness:
  "wf_df df_example \<and> transform exact_ops df_example = Inr out_example
   \<and> zip (col_cells out_example ''Price'') (col_cells out_example ''Area_sqft'')
       = [(Num 1000000, Num 500), (Num 750000, Num 250), (Num 200000, Num 100)]
   \<and> filter row_ok (zip (col_cells df_example ''Price'') (col_cells df_example ''Area_sqft''))
       = [(Num 1000000, Num 500), (Num 750000, Num 250), (Num 200000, Num 100)]"
proof -
  have w: "wf_df df_example" by (rule wf_example)
  have r: "transform exact_ops df_example = Inr out_example" by (rule example_run)
  have c: "zip (col_cells out_example ''Price'') (col_cells out_example ''Area_sqft'')
       = [(Num 1000000, Num 500), (Num 750000, Num 250), (Num 200000, Num 100)]"
    by (simp add: out_example_def col_cells_def)
  show ?thesis
    using surviving_rows_keep_order_and_values [OF w r] w r c by simp
qed

section \<open>The derived ratio\<close>



section \<open>Imputation\<close>

text \<open>
  Claim C3, as stated: after processing, every column of the numeric set that exists in
  the table has no missing value. It fails for a column that has no value in any surviving
  row: the median of such a column is missing, and filling with it changes nothing. Here
  the Washrooms column of the output is still all missing.
\<close>

theorem numeric_column_all_missing_stays_missing:
  "wf_df df_all_missing \<and> transform exact_ops df_all_missing = Inr out_all_missing
   \<and> ''Washrooms'' \<in> set numerical_cols \<and> ''Washrooms'' \<in> set (columns out_all_missing)
   \<and> col_cells out_all_missing ''Washrooms'' = [NaN, NaN]"
  using all_missing_run
  by (simp add: wf_df_def df_all_missing_def nrows_def numerical_cols_def out_all_missing_def
                columns_def col_cells_def)

text \<open>
  Claim C3, amended. A column \<open>k\<close> of the numeric set that exists in the input exists in
  the output. If it has at least one number in the surviving rows, each of its missing cells
  is replaced by the median of its numbers over the post-filter table (the middle of the
  sorted numbers, or \<open>mean2\<close> of the two middle ones), its other cells are unchanged, and
  the output column has no missing cell. If it has no number there, it is left as it is.
\<close>

theorem numeric_columns_filled_with_median:
  assumes "wf_df df" and "transform ops df = Inr out"
    and "k \<in> set numerical_cols" and "k \<in> set (columns df)"
  shows "k \<in> set (columns out)
       \<and> (nums (post_filter df k) \<noteq> [] \<longrightarrow>
            col_cells out k
              = map (\<lambda>c. if c = NaN then Num (middle ops (sort (nums (post_filter df k)))) else c)
                    (post_filter df k)
            \<and> list_all (\<lambda>c. c \<noteq> NaN) (col_cells out k))
       \<and> (nums (post_filter df k) = [] \<longrightarrow> col_cells out k = post_filter df k)"
proof -
  from assms(2) obtain df2 df3 df4 df5 where
    s3: "add_age df2 = Inr df3"
    and s4: "add_water_status df3 = Inr df4"
    and s5: "add_price_per_sqft ops df4 = Inr df5"
    and s6: "select_final df5 = Inr out"
    and i: "impute_missing ops df = Inr df2"
    by (rule transformE)
  have c: "col_cells df2 k =
           map (\<lambda>c. if c = NaN
                     then (if nums (post_filter df k) = [] then NaN
                           else Num (middle ops (sort (nums (post_filter df k)))))
                     else c) (post_filter df k)"
    and p: "k \<in> set (columns df2)"
    using assms(1) i assms(3,4) by (rule impute_missing_numeric(1), rule impute_missing_numeric(2))
  have o: "map_of out k = map_of df2 k"
    using s3 s4 s5 s6 by (rule later_steps_untouched)
       (use assms(3) in \<open>auto simp: numerical_cols_def final_cols_order_def\<close>)
  have oc: "col_cells out k = col_cells df2 k"
    using o by (rule col_cells_cong)
  have 1: "k \<in> set (columns out)"
    using p columns_iff_map_of [OF o] by simp
  have 2: "col_cells out k
              = map (\<lambda>c. if c = NaN then Num (middle ops (sort (nums (post_filter df k)))) else c)
                    (post_filter df k)
            \<and> list_all (\<lambda>c. c \<noteq> NaN) (col_cells out k)" if "nums (post_filter df k) \<noteq> []"
    using that by (auto simp: oc c list_all_iff)
  have 3: "col_cells out k = post_filter df k" if "nums (post_filter df k) = []"
    using that by (simp add: oc c map_idI)
  from 1 2 3 show ?thesis by blast
qed


theorem numeric_columns_filled_with_median_witness:
  "wf_df df_example \<and> transform exact_ops df_example = Inr out_example
   \<and> ''Washrooms'' \<in> set numerical_cols \<and> ''Washrooms'' \<in> set (columns df_example)
   \<and> post_filter df_example ''Washrooms'' = [Num 2, NaN, Num 4]
   \<and> middle exact_ops (sort (nums (post_filter df_example ''Washrooms''))) = 3
   \<and> col_cells out_example ''Washrooms'' = [Num 2, Num 3, Num 4]
   \<and> list_all (\<lambda>c. c \<noteq> NaN) (col_cells out_example ''Washrooms'')"
proof -
  have w: "wf_df df_example" by (rule wf_example)
  have r: "transform exact_ops df_example = Inr out_example" by (rule example_run)
  have k: "''Washrooms'' \<in> set numerical_cols" by (simp add: numerical_cols_def)
  have e: "''Washrooms'' \<in> set (columns df_example)" by (simp add: columns_def df_example_def)
  have p: "post_filter df_example ''Washrooms'' = [Num 2, NaN, Num 4]" by code_simp
  have m: "middle exact_ops (sort [2, 4]) = 3"
    by (simp add: middle_def exact_ops_def)
  have n: "nums [Num 2, NaN, Num 4] = [2, 4]" by (simp add: nums_def)
  have c: "col_cells out_example ''Washrooms'' = [Num 2, Num 3, Num 4]"
    by (simp add: out_example_def col_cells_def)
  show ?thesis
    using numeric_columns_filled_with_median [OF w r k e] w r k e p m n c by simp
qed

text \<open>
  Claim C7. After processing, every column \<open>k\<close> of the categorical set that exists in the
  table has no missing value, each missing cell having become the text \<open>Not Specified\<close>
  and every other cell being unchanged. This holds in the table after the imputation step
  for all seven columns, and in the output table for the six that remain there
  (Property_Age is dropped at the end).
\<close>

theorem categorical_columns_filled:
  assumes "wf_df df" and "transform ops df = Inr out" and "k \<in> set categorical_cols"
  shows "\<exists>df2. impute_missing ops df = Inr df2
           \<and> (k \<in> set (columns df2)) = (k \<in> set (columns df))
           \<and> col_cells df2 k = map (\<lambda>c. if c = NaN then Str ''Not Specified'' else c) (post_filter df k)
           \<and> list_all (\<lambda>c. c \<noteq> NaN) (col_cells df2 k)
           \<and> (k \<noteq> ''Property_Age'' \<longrightarrow>
                (k \<in> set (columns out)) = (k \<in> set (columns df))
                \<and> col_cells out k = col_cells df2 k)"
proof -
  from assms(2) obtain df2 df3 df4 df5 where
    s3: "add_age df2 = Inr df3"
    and s4: "add_water_status df3 = Inr df4"
    and s5: "add_price_per_sqft ops df4 = Inr df5"
    and s6: "select_final df5 = Inr out"
    and i: "impute_missing ops df = Inr df2"
    by (rule transformE)
  have c: "col_cells df2 k = map (\<lambda>c. if c = NaN then Str ''Not Specified'' else c) (post_filter df k)"
    and p: "(k \<in> set (columns df2)) = (k \<in> set (columns df))"
    using assms(1) i assms(3) by (rule impute_missing_categorical(1), rule impute_missing_categorical(2))
  have n: "list_all (\<lambda>c. c \<noteq> NaN) (col_cells df2 k)"
    unfolding c by (auto simp: list_all_iff)
  have o: "map_of out k = map_of df2 k" if "k \<noteq> ''Property_Age''"
    using s3 s4 s5 s6 by (rule later_steps_untouched)
       (use assms(3) that in \<open>auto simp: categorical_cols_def final_cols_order_def\<close>)
  show ?thesis
    using i c p n o columns_iff_map_of [of out k df2] col_cells_cong [of out k df2] by auto
qed

theorem categorical_columns_filled_witness:
  "wf_df df_example \<and> transform exact_ops df_example = Inr out_example
   \<and> ''Zoning'' \<in> set categorical_cols
   \<and> post_filter df_example ''Zoning'' = [NaN, Str ''Residential'', NaN]
   \<and> ''Zoning'' \<in> set (columns out_example)
   \<and> col_cells out_example ''Zoning''
        = [Str ''Not Specified'', Str ''Residential'', Str ''Not Specified'']
   \<and> list_all (\<lambda>c. c \<noteq> NaN) (col_cells out_example ''Zoning'')"
proof -
  have w: "wf_df df_example" by (rule wf_example)
  have r: "transform exact_ops df_example = Inr out_example" by (rule example_run)
  have k: "''Zoning'' \<in> set categorical_cols" by (simp add: categorical_cols_def)
  have p: "post_filter df_example ''Zoning'' = [NaN, Str ''Residential'', NaN]" by code_simp
  have e: "''Zoning'' \<in> set (columns df_example)" by (simp add: columns_def df_example_def)
  from categorical_columns_filled [OF w r k] obtain df2 where
    f: "col_cells df2 ''Zoning''
          = map (\<lambda>c. if c = NaN then Str ''Not Specified'' else c) (post_filter df_example ''Zoning'')"
    and n: "list_all (\<lambda>c. c \<noteq> NaN) (col_cells df2 ''Zoning'')"
    and o: "(''Zoning'' \<in> set (columns out_example)) = (''Zoning'' \<in> set (columns df_example))"
      "col_cells out_example ''Zoning'' = col_cells df2 ''Zoning''"
    by auto
  show ?thesis
    using w r k p e f n o by simp
qed

section \<open>The age mapping\<close>

text \<open>
  Claim C4. For every row of the output table, Age_in_Years is one of 0, 2.5, 7.5, 12.5,
  17.5, 25 and -1: a Property_Age of the lookup table gives its listed number, and any
  other value, a missing one (imputed as \<open>Not Specified\<close>) included, gives -1. The rows
  are the surviving rows of the input, in order.
\<close>

theorem age_in_years_from_lookup_table:
  assumes "wf_df df" and "transform ops df = Inr out"
  shows "''Age_in_Years'' \<in> set (columns out)
       \<and> list_all (\<lambda>g. g \<in> {Num 0, Num 2.5, Num 7.5, Num 12.5, Num 17.5, Num 25, Num (-1)})
           (col_cells out ''Age_in_Years'')
       \<and> list_all2 (\<lambda>a g.
             (a = Str ''New Construction'' \<longrightarrow> g = Num 0)
           \<and> (a = Str ''Less than 5 years old'' \<longrightarrow> g = Num 2.5)
           \<and> (a = Str ''5 to 10 years old'' \<longrightarrow> g = Num 7.5)
           \<and> (a = Str ''10 to 15 years old'' \<longrightarrow> g = Num 12.5)
           \<and> (a = Str ''15 to 20 years old'' \<longrightarrow> g = Num 17.5)
           \<and> (a = Str ''Above 20 years old'' \<longrightarrow> g = Num 25)
           \<and> (a \<notin> {Str ''New Construction'', Str ''Less than 5 years old'', Str ''5 to 10 years old'',
                     Str ''10 to 15 years old'', Str ''15 to 20 years old'', Str ''Above 20 years old''}
                \<longrightarrow> g = Num (-1)))
           (post_filter df ''Property_Age'') (col_cells out ''Age_in_Years'')"
proof -
  let ?f = "\<lambda>a. let v = map_dict age_map (if a = NaN then Str ''Not Specified'' else a)
                 in if v = NaN then Num (-1) else v"
  have m: "map_of out ''Age_in_Years'' = Some (Series Float64 (map ?f (post_filter df ''Property_Age'')))"
    using assms by (rule age_out)
  then have c: "col_cells out ''Age_in_Years'' = map ?f (post_filter df ''Property_Age'')"
    by (simp add: col_cells_def)
  have 1: "''Age_in_Years'' \<in> set (columns out)"
    using m map_of_columns [of out "''Age_in_Years''"] by simp
  have 2: "list_all (\<lambda>g. g \<in> {Num 0, Num 2.5, Num 7.5, Num 12.5, Num 17.5, Num 25, Num (-1)})
           (col_cells out ''Age_in_Years'')"
    unfolding c list_all_iff
  proof
    fix g assume "g \<in> set (map ?f (post_filter df ''Property_Age''))"
    then obtain a where "g = ?f a" by auto
    then show "g \<in> {Num 0, Num 2.5, Num 7.5, Num 12.5, Num 17.5, Num 25, Num (-1)}"
      using age_cell_range [of a] by simp
  qed
  have 3: "list_all2 (\<lambda>a g.
             (a = Str ''New Construction'' \<longrightarrow> g = Num 0)
           \<and> (a = Str ''Less than 5 years old'' \<longrightarrow> g = Num 2.5)
           \<and> (a = Str ''5 to 10 years old'' \<longrightarrow> g = Num 7.5)
           \<and> (a = Str ''10 to 15 years old'' \<longrightarrow> g = Num 12.5)
           \<and> (a = Str ''15 to 20 years old'' \<longrightarrow> g = Num 17.5)
           \<and> (a = Str ''Above 20 years old'' \<longrightarrow> g = Num 25)
           \<and> (a \<notin> {Str ''New Construction'', Str ''Less than 5 years old'', Str ''5 to 10 years old'',
                     Str ''10 to 15 years old'', Str ''15 to 20 years old'', Str ''Above 20 years old''}
                \<longrightarrow> g = Num (-1)))
           (post_filter df ''Property_Age'') (col_cells out ''Age_in_Years'')"
    unfolding c list_all2_map2 by (rule list_all2_refl) (rule age_cell)
  from 1 2 3 show ?thesis by blast
qed

theorem age_in_years_from_lookup_table_witness:
  "wf_df df_example \<and> transform exact_ops df_example = Inr out_example
   \<and> post_filter df_example ''Property_Age'' = [Str ''5 to 10 years old'', NaN, Str ''Old'']
   \<and> col_cells out_example ''Age_in_Years'' = [Num 7.5, Num (-1), Num (-1)]
   \<and> list_all (\<lambda>g. g \<in> {Num 0, Num 2.5, Num 7.5, Num 12.5, Num 17.5, Num 25, Num (-1)})
        (col_cells out_example ''Age_in_Years'')"
proof -
  have w: "wf_df df_example" by (rule wf_example)
  have r: "transform exact_ops df_example = Inr out_example" by (rule example_run)
  have p: "post_filter df_example ''Property_Age'' = [Str ''5 to 10 years old'', NaN, Str ''Old'']"
    by code_simp
  have c: "col_cells out_example ''Age_in_Years'' = [Num 7.5, Num (-1), Num (-1)]"
    by (simp add: out_example_def col_cells_def)
  from age_in_years_from_lookup_table [OF w r]
  have "list_all (\<lambda>g. g \<in> {Num 0, Num 2.5, Num 7.5, Num 12.5, Num 17.5, Num 25, Num (-1)})
        (col_cells out_example ''Age_in_Years'')"
    by (rule conjunct1 [OF conjunct2])
  with w r p c show ?thesis by simp
qed

section \<open>The water availability status\<close>





section \<open>The output columns\<close>

text \<open>
  Claim C6, as stated, speaks of a canonical list of 27 names. The list of the script has
  28 names, and a table that has all of them gives an output with 28 distinct columns, more
  than any list of 27 names can provide.
\<close>

theorem output_can_have_28_columns:
  "transform exact_ops df_full = Inr out_full \<and> distinct (columns out_full)
   \<and> length (columns out_full) = 28 \<and> \<not> length (columns out_full) \<le> 27"
  using full_run by (simp add: columns_def out_full_def)

text \<open>
  Claim C6, amended. For every input table, the column list of the output is exactly those
  names of the fixed canonical list of 28 names that are present after derivation (the
  columns of the input and the three derived columns), in the canonical relative order;
  Property_Age and Water Availability never appear in the output.
\<close>

theorem output_columns_in_canonical_order:
  assumes "transform ops df = Inr out"
  shows "columns out
           = filter (\<lambda>c. c \<in> set (columns df) \<or> c = ''Age_in_Years''
                          \<or> c = ''Water_Availability_Status'' \<or> c = ''Price_per_sqft'')
               final_cols_order
       \<and> length final_cols_order = 28 \<and> distinct final_cols_order
       \<and> ''Property_Age'' \<notin> set (columns out) \<and> ''Water Availability'' \<notin> set (columns out)"
proof -
  from assms obtain df2 df3 df4 df5 where
    s3: "add_age df2 = Inr df3"
    and s4: "add_water_status df3 = Inr df4"
    and s5: "add_price_per_sqft ops df4 = Inr df5"
    and s6: "select_final df5 = Inr out"
    and i: "impute_missing ops df = Inr df2"
    by (rule transformE)
  have c5: "set (columns df5)
      = insert ''Price_per_sqft'' (insert ''Water_Availability_Status''
          (insert ''Age_in_Years'' (set (columns df))))"
    using columns_before_selection [OF i s3 s4 s5] by simp
  have 1: "columns out
           = filter (\<lambda>c. c \<in> set (columns df) \<or> c = ''Age_in_Years''
                          \<or> c = ''Water_Availability_Status'' \<or> c = ''Price_per_sqft'')
               final_cols_order"
    unfolding select_final_Inr(1) [OF s6] c5 by (intro filter_cong refl) blast
  have 2: "length final_cols_order = 28" "distinct final_cols_order"
    "''Property_Age'' \<notin> set final_cols_order" "''Water Availability'' \<notin> set final_cols_order"
    by (simp_all add: final_cols_order_def)
  have 3: "set (columns out) \<subseteq> set final_cols_order"
    unfolding 1 by auto
  from 1 2 3 show ?thesis by blast
qed

theorem output_columns_in_canonical_order_witness:
  "transform exact_ops df_example = Inr out_example
   \<and> columns out_example
       = [''Price'', ''Area_sqft'', ''Price_per_sqft'', ''Age_in_Years'', ''Zoning'',
          ''Water_Availability_Status'', ''Washrooms'']
   \<and> columns out_example
       = filter (\<lambda>c. c \<in> set (columns df_example) \<or> c = ''Age_in_Years''
                      \<or> c = ''Water_Availability_Status'' \<or> c = ''Price_per_sqft'')
           final_cols_order"
proof -
  have r: "transform exact_ops df_example = Inr out_example" by (rule example_run)
  have c: "columns out_example
       = [''Price'', ''Area_sqft'', ''Price_per_sqft'', ''Age_in_Years'', ''Zoning'',
          ''Water_Availability_Status'', ''Washrooms'']"
    by (simp add: columns_def out_example_def)
  show ?thesis
    using output_columns_in_canonical_order [OF r] r c by simp
qed


section \<open>Missing input and missing columns\<close>

text \<open>
  Claim C8. If the input location does not exist, \<open>finalize_property_data\<close> prints the
  error and returns; if it cannot be read, the error reaches the caller as the exception
  that \<open>read_csv\<close> raises. In both cases the run ends there and no file is written: the
  files are those before the call. In the default invocation a missing input file gives a
  normal return, two printed lines and no output file.
\<close>

theorem missing_or_unreadable_input_writes_nothing:
  "(files w input_csv_path = Missing \<longrightarrow>
      finalize_property_data ops input_csv_path output_csv_path w
        = (Returned,
           w\<lparr>console := console w @ [''Error: The file '' @ quoted input_csv_path
                                        @ '' was not found. Please check the path.'']\<rparr>))
   \<and> (files w input_csv_path = Unreadable e \<and> e \<noteq> FileNotFoundError \<longrightarrow>
      finalize_property_data ops input_csv_path output_csv_path w = (Raised e, w))
   \<and> (files w input_csv_path = Missing \<or> files w input_csv_path = Unreadable e \<longrightarrow>
      files (snd (finalize_property_data ops input_csv_path output_csv_path w)) = files w)
   \<and> (files w INPUT_FILE = Missing \<longrightarrow>
      fst (main ops w) = Returned \<and> files (snd (main ops w)) = files w
      \<and> console (snd (main ops w))
          = console w @ [''ERROR: The input file was not found at the path: '' @ INPUT_FILE,
               ''Please make sure the file from the first script exists and the path is correct.''])"
  by (auto simp: finalize_property_data_def read_csv_def print_def main_def path_exists_def)

theorem missing_or_unreadable_input_writes_nothing_witness:
  "files world_no_input ''in.csv'' = Missing
   \<and> finalize_property_data exact_ops ''in.csv'' ''out.csv'' world_no_input
       = (Returned, world_no_input\<lparr>console :=
            [''Error: The file '' @ quoted ''in.csv'' @ '' was not found. Please check the path.'']\<rparr>)
   \<and> files world_unreadable ''in.csv'' = Unreadable OSError
   \<and> finalize_property_data exact_ops ''in.csv'' ''out.csv'' world_unreadable
       = (Raised OSError, world_unreadable)
   \<and> files (snd (finalize_property_data exact_ops ''in.csv'' ''out.csv'' world_unreadable)) ''out.csv''
       = Missing
   \<and> files world_no_input INPUT_FILE = Missing
   \<and> fst (main exact_ops world_no_input) = Returned
   \<and> files (snd (main exact_ops world_no_input)) OUTPUT_FILE = Missing"
proof -
  have a: "files world_no_input ''in.csv'' = Missing" "files world_no_input INPUT_FILE = Missing"
    "console world_no_input = []" "files world_no_input OUTPUT_FILE = Missing"
    by (simp_all add: world_no_input_def)
  have b: "files world_unreadable ''in.csv'' = Unreadable OSError"
    "files world_unreadable ''out.csv'' = Missing"
    by (simp_all add: world_unreadable_def)
  show ?thesis
    using missing_or_unreadable_input_writes_nothing
        [of world_no_input "''in.csv''" exact_ops "''out.csv''" OSError]
      missing_or_unreadable_input_writes_nothing
        [of world_unreadable "''in.csv''" exact_ops "''out.csv''" OSError]
      a b
    by simp
qed


text \<open>
  Claim C9, as stated, holds of every step of the pipeline. The steps that read
  Property_Age, Water Availability, Price and Area_sqft have no check: on a table without
  Property_Age the run ends with \<open>KeyError\<close>.
\<close>

theorem absent_property_age_raises:
  "''Property_Age'' \<notin> set (columns df_no_age)
   \<and> transform exact_ops df_no_age = Inl (KeyError [''Property_Age''])"
  using no_age_run by (simp add: columns_def df_no_age_def)

text \<open>
  Claim C9, amended. For every input table that has the columns Price, Area_sqft,
  Property_Age and Water Availability, no column that is absent raises an exception: the
  run never ends with \<open>KeyError\<close>, an imputation step whose column is absent leaves the
  table as it is, so does the drop of an absent column, and the reorder step, which keeps
  the existing columns only, never raises.
\<close>

theorem absent_optional_column_is_skipped:
  assumes "''Price'' \<in> set (columns df)" and "''Area_sqft'' \<in> set (columns df)"
    and "''Property_Age'' \<in> set (columns df)" and "''Water Availability'' \<in> set (columns df)"
  shows "transform ops df \<noteq> Inl (KeyError ks)
       \<and> (col \<notin> set (columns df) \<longrightarrow>
            impute_numeric ops col df = Inr df \<and> impute_categorical col df = Inr df
            \<and> drop_columns [col] df = df)
       \<and> select_final df \<noteq> Inl e"
proof -
  have 1: "transform ops df \<noteq> Inl (KeyError ks)"
    using transform_Inl [OF _ assms, of ops "KeyError ks"] by auto
  have 2: "impute_numeric ops col df = Inr df \<and> impute_categorical col df = Inr df
            \<and> drop_columns [col] df = df" if "col \<notin> set (columns df)"
  proof -
    have "map_of df col = None" using that by (simp add: map_of_columns)
    moreover have "filter (\<lambda>(k, s). k \<noteq> col) df = df"
      using that by (intro filter_True) (force simp: columns_def)
    ultimately show ?thesis
      by (simp add: impute_numeric_def impute_categorical_def drop_columns_def)
  qed
  have 3: "select_final df \<noteq> Inl e"
    using select_final_total [of df] by auto
  from 1 2 3 show ?thesis by blast
qed

theorem absent_optional_column_is_skipped_witness:
  "''Price'' \<in> set (columns df_example) \<and> ''Area_sqft'' \<in> set (columns df_example)
   \<and> ''Property_Age'' \<in> set (columns df_example) \<and> ''Water Availability'' \<in> set (columns df_example)
   \<and> ''Floor_Number'' \<notin> set (columns df_example)
   \<and> transform exact_ops df_example = Inr out_example
   \<and> transform exact_ops df_example \<noteq> Inl (KeyError [''Floor_Number''])
   \<and> impute_numeric exact_ops ''Floor_Number'' df_example = Inr df_example
   \<and> impute_categorical ''Floor_Number'' df_example = Inr df_example"
proof -
  have c: "''Price'' \<in> set (columns df_example)" "''Area_sqft'' \<in> set (columns df_example)"
    "''Property_Age'' \<in> set (columns df_example)" "''Water Availability'' \<in> set (columns df_example)"
    by (simp_all add: columns_def df_example_def)
  have n: "''Floor_Number'' \<notin> set (columns df_example)"
    by (simp add: columns_def df_example_def)
  have r: "transform exact_ops df_example = Inr out_example" by (rule example_run)
  show ?thesis
    using absent_optional_column_is_skipped [OF c, of exact_ops "[''Floor_Number'']" "''Floor_Number''"]
      c n r by simp
qed


end
